theory Spec2Isabelle
  imports Complex_Main
begin

section \<open>Invoice field extraction of \<open>main.py\<close> (class \<open>SimpleRPA\<close>)\<close>

text \<open>
  The development embeds \<open>SimpleRPA.extract_invoice_data\<close> and the record selection and
  summary computation of \<open>SimpleRPA.process_invoices\<close>.

  Python strings are modelled as \<open>string\<close>: every character is a code point below 256.
  The string primitives of Python that the source calls (\<open>strip\<close>, \<open>lower\<close>, \<open>split\<close>,
  \<open>in\<close>, \<open>replace\<close>, \<open>re.findall\<close>, \<open>float\<close>) are written out for that range.
\<close>

subsection \<open>String primitives\<close>

text \<open>\<open>str.isspace\<close> on one character: the white space code points below 256.\<close>

definition py_isspace :: "char \<Rightarrow> bool" where
  "py_isspace c = ((of_char c :: nat) \<in> {9, 10, 11, 12, 13, 28, 29, 30, 31, 32, 133, 160})"

text \<open>\<open>s.strip()\<close>: white space removed at both ends.\<close>

definition py_strip :: "string \<Rightarrow> string" where
  "py_strip s = rev (dropWhile py_isspace (rev (dropWhile py_isspace s)))"

text \<open>\<open>s.lower()\<close>: \<open>A\<close>-\<open>Z\<close> and the upper-case letters of Latin-1 (code points 192 to
  222 without the multiplication sign 215) move up by 32; every other character stays.\<close>

definition py_lower_char :: "char \<Rightarrow> char" where
  "py_lower_char c =
     (let n = (of_char c :: nat)
      in if (65 \<le> n \<and> n \<le> 90) \<or> (192 \<le> n \<and> n \<le> 222 \<and> n \<noteq> 215)
         then char_of (n + 32) else c)"

definition py_lower :: "string \<Rightarrow> string" where
  "py_lower s = map py_lower_char s"

text \<open>\<open>s.startswith(p)\<close> and \<open>p in s\<close> (substring test).\<close>

fun starts_with :: "string \<Rightarrow> string \<Rightarrow> bool" where
  "starts_with [] s = True"
| "starts_with (p # ps) [] = False"
| "starts_with (p # ps) (c # cs) = (p = c \<and> starts_with ps cs)"

fun py_in :: "string \<Rightarrow> string \<Rightarrow> bool" where
  "py_in p [] = (p = [])"
| "py_in p (c # cs) = (starts_with p (c # cs) \<or> py_in p cs)"

text \<open>\<open>s.split(sep)\<close> for a separator of one character: the result is never empty, and
  \<open>n\<close> separators give \<open>n + 1\<close> parts.\<close>

fun py_split :: "char \<Rightarrow> string \<Rightarrow> string list" where
  "py_split sep [] = [[]]"
| "py_split sep (c # cs) =
     (if c = sep then [] # py_split sep cs
      else (case py_split sep cs of
              [] \<Rightarrow> [[c]]
            | p # ps \<Rightarrow> (c # p) # ps))"

definition newline :: char where
  "newline = CHR 0x0A"

text \<open>\<open>\d\<close> of the \<open>re\<close> module: below code point 256 the decimal digits are \<open>0\<close> to \<open>9\<close>.\<close>

definition is_digit :: "char \<Rightarrow> bool" where
  "is_digit c = (48 \<le> (of_char c :: nat) \<and> (of_char c :: nat) \<le> 57)"

definition is_digit_or_comma :: "char \<Rightarrow> bool" where
  "is_digit_or_comma c = (is_digit c \<or> c = CHR '','')"

text \<open>One match attempt of \<open>([\d,]+\.?\d*)\<close> on the text that follows a dollar sign: the
  captured group and the text left after the match, or \<open>None\<close> when no digit or comma
  follows. Every part of the pattern is greedy and the parts after the first may match
  the empty string, so the first attempt of the matcher is the match.\<close>

definition amount_match :: "string \<Rightarrow> (string \<times> string) option" where
  "amount_match s =
     (let ds = takeWhile is_digit_or_comma s;
          r1 = dropWhile is_digit_or_comma s
      in if ds = [] then None
         else (case r1 of
                 [] \<Rightarrow> Some (ds, r1)
               | c # r2 \<Rightarrow>
                   if c = CHR ''.''
                   then Some (ds @ [c] @ takeWhile is_digit r2, dropWhile is_digit r2)
                   else Some (ds, r1)))"

lemma amount_match_length:
  assumes "amount_match s = Some (g, r)"
  shows "length r \<le> length s"
proof -
  let ?r1 = "dropWhile is_digit_or_comma s"
  have d1: "length ?r1 \<le> length s"
    by (rule length_dropWhile_le)
  show ?thesis
  proof (cases ?r1)
    case Nil
    with assms have "r = []"
      by (simp add: amount_match_def Let_def split: if_splits)
    then show ?thesis by simp
  next
    case (Cons c r2)
    have d2: "length (dropWhile is_digit r2) \<le> length r2"
      by (rule length_dropWhile_le)
    from assms Cons have "r = ?r1 \<or> r = dropWhile is_digit r2"
      by (simp add: amount_match_def Let_def split: if_splits)
    then show ?thesis
    proof
      assume "r = ?r1"
      with d1 show ?thesis by simp
    next
      assume "r = dropWhile is_digit r2"
      with d1 d2 Cons show ?thesis by simp
    qed
  qed
qed

text \<open>\<open>re.findall(r'\$([\d,]+\.?\d*)', line)\<close>: the groups of the matches, left to right,
  each search resuming where the previous match ended.\<close>

function findall_amounts :: "string \<Rightarrow> string list" where
  "findall_amounts [] = []"
| "findall_amounts (c # cs) =
     (if c = CHR ''$''
      then (case amount_match cs of
              None \<Rightarrow> findall_amounts cs
            | Some (g, r) \<Rightarrow> g # findall_amounts r)
      else findall_amounts cs)"
  by pat_completeness auto
termination
  by (relation "measure length") (auto dest: amount_match_length)

text \<open>The exceptions that the modelled code can meet: a missing file and an unreadable
  PDF (raised by \<open>open\<close> and by \<open>pypdf\<close>), the \<open>ValueError\<close> of \<open>float\<close> and of a sheet
  that is too large, the \<open>OSError\<close> of an Excel file that cannot be opened or saved, and
  the \<open>IllegalCharacterError\<close> of \<open>openpyxl\<close>.\<close>

datatype error =
    FileNotFoundError
  | PdfReadError
  | ValueError
  | OSError
  | IllegalCharacterError

fun digits_value :: "string \<Rightarrow> nat \<Rightarrow> nat" where
  "digits_value [] acc = acc"
| "digits_value (c # cs) acc = digits_value cs (10 * acc + ((of_char c :: nat) - 48))"

text \<open>\<open>float(s)\<close> on the strings that reach it here, which hold digits and dots only (what
  is left of a match of \<open>[\d,]+\.?\d*\<close> once the commas are removed): digits with at most
  one dot and at least one digit are accepted, anything else is a \<open>ValueError\<close>. The
  value is kept as the exact rational that the decimal text denotes; the rounding of
  \<open>float\<close> to the nearest binary64 number is not modelled.\<close>

definition py_float :: "string \<Rightarrow> error + rat" where
  "py_float s =
     (let ip = takeWhile is_digit s;
          r = dropWhile is_digit s
      in case r of
           [] \<Rightarrow> if ip = [] then Inl ValueError else Inr (of_nat (digits_value ip 0))
         | c # fp \<Rightarrow>
             if c = CHR ''.'' \<and> list_all is_digit fp \<and> (ip \<noteq> [] \<or> fp \<noteq> [])
             then Inr (of_nat (digits_value (ip @ fp) 0) / 10 ^ length fp)
             else Inl ValueError)"

text \<open>\<open>s.replace(',', '')\<close>.\<close>

definition remove_commas :: "string \<Rightarrow> string" where
  "remove_commas s = filter (\<lambda>c. c \<noteq> CHR '','') s"

subsection \<open>The field rules of \<open>extract_invoice_data\<close>\<close>

text \<open>The dictionary \<open>invoice_data\<close>: seven keys, \<open>None\<close> as \<open>None\<close>.\<close>

record invoice_data =
  invoice_number :: "string option"
  vendor_name :: "string option"
  invoice_date :: "string option"
  invoice_amount :: "rat option"
  due_date :: "string option"
  payment_status :: "string option"
  file_path :: string

text \<open>The source has the same loop three times, for the labels \<open>Invoice Number:\<close>,
  \<open>Invoice Date:\<close> and \<open>Due Date:\<close>: the first line that contains the label and splits
  at \<open>:\<close> into more than one part sets the field to \<open>parts[1].strip()\<close> and ends the
  loop.\<close>

fun extract_labelled :: "string \<Rightarrow> string list \<Rightarrow> string option" where
  "extract_labelled label [] = None"
| "extract_labelled label (line # rest) =
     (if py_in label line
      then (case py_split (CHR '':'') line of
              p0 # p1 # ps \<Rightarrow> Some (py_strip p1)
            | _ \<Rightarrow> extract_labelled label rest)
      else extract_labelled label rest)"

definition extract_invoice_number :: "string list \<Rightarrow> string option" where
  "extract_invoice_number lines = extract_labelled ''Invoice Number:'' lines"

definition extract_invoice_date :: "string list \<Rightarrow> string option" where
  "extract_invoice_date lines = extract_labelled ''Invoice Date:'' lines"

definition extract_due_date :: "string list \<Rightarrow> string option" where
  "extract_due_date lines = extract_labelled ''Due Date:'' lines"

definition skip_keywords :: "string list" where
  "skip_keywords =
     [''invoice'', ''bill'', ''date'', ''phone'', ''email'', ''address'', ''description'',
      ''qty'', ''unit'', ''total'', ''please'', ''share'', ''form'', ''within'', ''hours'',
      ''recent'', ''infusion'']"

fun extract_vendor_name :: "string list \<Rightarrow> string option" where
  "extract_vendor_name [] = None"
| "extract_vendor_name (line0 # rest) =
     (let line = py_strip line0
      in if line \<noteq> [] \<and> length line > 3
         then (if \<not> list_ex (\<lambda>keyword. py_in keyword (py_lower line)) skip_keywords
               then Some line
               else extract_vendor_name rest)
         else extract_vendor_name rest)"

text \<open>The amount loop. \<open>except ValueError: continue\<close> catches the \<open>ValueError\<close> of
  \<open>float\<close> only; any other exception would leave the loop, which is the \<open>Inl\<close> result.\<close>

fun extract_invoice_amount :: "string list \<Rightarrow> error + rat option" where
  "extract_invoice_amount [] = Inr None"
| "extract_invoice_amount (line # rest) =
     (if CHR ''$'' \<in> set line
      then (case findall_amounts line of
              [] \<Rightarrow> extract_invoice_amount rest
            | a # as \<Rightarrow>
                (case py_float (remove_commas (last (a # as))) of
                   Inr v \<Rightarrow> Inr (Some v)
                 | Inl ValueError \<Rightarrow> extract_invoice_amount rest
                 | Inl e \<Rightarrow> Inl e))
      else extract_invoice_amount rest)"

text \<open>The payment status loop. \<open>Some\<close> stands for \<open>payment_status_found = True\<close> with the
  value that was stored; the statement after the loop, which stores \<open>None\<close> when the flag
  is still \<open>False\<close>, leaves \<open>None\<close> as it is.\<close>

fun extract_payment_status :: "string list \<Rightarrow> string option" where
  "extract_payment_status [] = None"
| "extract_payment_status (line # rest) =
     (if py_in ''Payment Status:'' line
      then (case py_split (CHR '':'') line of
              p0 # p1 # ps \<Rightarrow>
                (let status = py_strip p1
                 in if py_in ''unpaid'' (py_lower status) then Some ''Unpaid''
                    else if py_in ''paid'' (py_lower status) then Some ''Paid''
                    else Some status)
            | _ \<Rightarrow> extract_payment_status rest)
      else extract_payment_status rest)"

text \<open>\<open>Path(pdf_path).name\<close> for a POSIX path: the last component, where empty
  components and \<open>.\<close> do not count; the empty string when there is none.\<close>

definition path_name :: "string \<Rightarrow> string" where
  "path_name p =
     (case filter (\<lambda>x. x \<noteq> [] \<and> x \<noteq> ''.'') (py_split (CHR ''/'') p) of
        [] \<Rightarrow> []
      | x # xs \<Rightarrow> last (x # xs))"

text \<open>The part of the \<open>try\<close> block after the text of the document has been read.\<close>

definition scan_text :: "string \<Rightarrow> string \<Rightarrow> error + invoice_data" where
  "scan_text text_content pdf_path =
     (let lines = py_split newline text_content
      in case extract_invoice_amount lines of
           Inl e \<Rightarrow> Inl e
         | Inr amount \<Rightarrow>
             Inr \<lparr> invoice_number = extract_invoice_number lines,
                   vendor_name = extract_vendor_name lines,
                   invoice_date = extract_invoice_date lines,
                   invoice_amount = amount,
                   due_date = extract_due_date lines,
                   payment_status = extract_payment_status lines,
                   file_path = path_name pdf_path \<rparr>)"

text \<open>The record of the \<open>except\<close> branch.\<close>

definition empty_invoice_data :: "string \<Rightarrow> invoice_data" where
  "empty_invoice_data pdf_path =
     \<lparr> invoice_number = None, vendor_name = None, invoice_date = None,
       invoice_amount = None, due_date = None, payment_status = None,
       file_path = path_name pdf_path \<rparr>"

subsection \<open>Files and output\<close>

text \<open>What the code reads and writes: the PDF files (for a path, the texts that
  \<open>extract_text\<close> gives page by page, or the exception raised while opening or reading;
  a path that is absent raises \<open>FileNotFoundError\<close>) and the lines printed.\<close>

datatype printed =
    Processing string
  | Extracted invoice_data
  | ErrorExtracting string error

record world =
  pdf_files :: "(string \<times> (error + string list)) list"
  stdout :: "printed list"

definition read_pages :: "world \<Rightarrow> string \<Rightarrow> error + string list" where
  "read_pages w pdf_path =
     (case map_of (pdf_files w) pdf_path of
        None \<Rightarrow> Inl FileNotFoundError
      | Some r \<Rightarrow> r)"

definition print_line :: "printed \<Rightarrow> world \<Rightarrow> world" where
  "print_line x w = w\<lparr>stdout := stdout w @ [x]\<rparr>"

text \<open>The body of the \<open>try\<close> block of \<open>extract_invoice_data\<close>.\<close>

definition try_extract :: "world \<Rightarrow> string \<Rightarrow> (error + invoice_data) \<times> world" where
  "try_extract w pdf_path =
     (let w1 = print_line (Processing (path_name pdf_path)) w
      in case read_pages w1 pdf_path of
           Inl e \<Rightarrow> (Inl e, w1)
         | Inr pages \<Rightarrow>
             (let text_content = concat (map (\<lambda>page. page @ [newline]) pages)
              in case scan_text text_content pdf_path of
                   Inl e \<Rightarrow> (Inl e, w1)
                 | Inr d \<Rightarrow> (Inr d, print_line (Extracted d) w1)))"

text \<open>\<open>extract_invoice_data\<close>: the \<open>try\<close> block with its \<open>except Exception\<close> branch. The
  result is a sum so that an exception leaving the function would be a value \<open>Inl\<close>.\<close>

definition extract_invoice_data :: "world \<Rightarrow> string \<Rightarrow> (error + invoice_data) \<times> world" where
  "extract_invoice_data w pdf_path =
     (case try_extract w pdf_path of
        (Inr d, w1) \<Rightarrow> (Inr d, w1)
      | (Inl e, w1) \<Rightarrow>
          (Inr (empty_invoice_data pdf_path), print_line (ErrorExtracting pdf_path e) w1))"

subsection \<open>\<open>process_invoices\<close>: selection of the records and the summary sheet\<close>

text \<open>Truth value of a field in \<open>if a or b or c\<close> and in \<open>if item.get(...)\<close>: \<open>None\<close>, the
  empty string and the number zero are false.\<close>

definition truthy_str :: "string option \<Rightarrow> bool" where
  "truthy_str x = (case x of None \<Rightarrow> False | Some s \<Rightarrow> s \<noteq> [])"

definition truthy_num :: "rat option \<Rightarrow> bool" where
  "truthy_num x = (case x of None \<Rightarrow> False | Some a \<Rightarrow> a \<noteq> 0)"

text \<open>Step 2 of \<open>process_invoices\<close>: the loop over the downloaded files that fills
  \<open>invoice_data_list\<close>.\<close>

fun collect_invoice_data :: "world \<Rightarrow> string list \<Rightarrow> (error + invoice_data list) \<times> world" where
  "collect_invoice_data w [] = (Inr [], w)"
| "collect_invoice_data w (pdf_file # rest) =
     (case extract_invoice_data w pdf_file of
        (Inl e, w1) \<Rightarrow> (Inl e, w1)
      | (Inr d, w1) \<Rightarrow>
          (case collect_invoice_data w1 rest of
             (Inl e, w2) \<Rightarrow> (Inl e, w2)
           | (Inr ds, w2) \<Rightarrow>
               (Inr (if truthy_str (invoice_number d) \<or> truthy_num (invoice_amount d)
                          \<or> truthy_str (vendor_name d)
                     then d # ds else ds), w2)))"

text \<open>Decimal digits of a natural number, and \<open>,\<close> between groups of three digits.\<close>

definition digit_char :: "nat \<Rightarrow> char" where
  "digit_char n = char_of (48 + n)"

function show_nat :: "nat \<Rightarrow> string" where
  "show_nat n = (if n < 10 then [digit_char n] else show_nat (n div 10) @ [digit_char (n mod 10)])"
  by pat_completeness auto
termination
  by (relation "measure id") auto

fun group3_rev :: "string \<Rightarrow> string" where
  "group3_rev (a # b # c # d # rest) = a # b # c # CHR '','' # group3_rev (d # rest)"
| "group3_rev xs = xs"

definition group_thousands :: "string \<Rightarrow> string" where
  "group_thousands s = rev (group3_rev (rev s))"

definition round_half_even :: "rat \<Rightarrow> int" where
  "round_half_even x =
     (let f = \<lfloor>x\<rfloor>; r = x - of_int f
      in if r < 1 / 2 then f
         else if 1 / 2 < r then f + 1
         else if even f then f else f + 1)"

text \<open>\<open>f"${total_amount:,.2f}"\<close> on the exact value: two decimals, rounded half to even.\<close>

definition format_currency :: "rat \<Rightarrow> string" where
  "format_currency x =
     (let n = nat (round_half_even (\<bar>x\<bar> * 100))
      in ''$'' @ (if x < 0 then ''-'' else []) @ group_thousands (show_nat (n div 100))
         @ ''.'' @ [digit_char (n mod 100 div 10), digit_char (n mod 10)])"

datatype cell = IntValue nat | StrValue string

text \<open>The generator expressions \<open>item.get(k) for item in invoice_data_list if item.get(k)\<close>.\<close>

definition truthy_amounts :: "invoice_data list \<Rightarrow> rat list" where
  "truthy_amounts ds =
     List.map_filter
       (\<lambda>item. case invoice_amount item of
                  None \<Rightarrow> None
                | Some a \<Rightarrow> if a = 0 then None else Some a) ds"

definition truthy_vendors :: "invoice_data list \<Rightarrow> string list" where
  "truthy_vendors ds =
     List.map_filter
       (\<lambda>item. case vendor_name item of
                  None \<Rightarrow> None
                | Some v \<Rightarrow> if v = [] then None else Some v) ds"

definition summary_data :: "invoice_data list \<Rightarrow> (string \<times> cell) list" where
  "summary_data invoice_data_list =
     (let total_amount = sum_list (truthy_amounts invoice_data_list);
          total_invoices = length invoice_data_list;
          unique_vendors = card (set (truthy_vendors invoice_data_list))
      in [(''Total Invoices'', IntValue total_invoices),
          (''Total Amount'', StrValue (format_currency total_amount)),
          (''Unique Vendors'', IntValue unique_vendors)])"

text \<open>The two sheets of the Excel file.\<close>

record report =
  invoice_sheet :: "invoice_data list"
  summary_sheet :: "(string \<times> cell) list"

text \<open>What \<open>df.to_excel\<close> refuses. \<open>pandas\<close> raises \<open>ValueError\<close> for a sheet of more than
  1048576 rows. \<open>openpyxl\<close> cuts a string cell to its first 32767 characters and raises
  \<open>IllegalCharacterError\<close> when what is left holds one of the
  characters of its pattern \<open>ILLEGAL_CHARACTERS_RE\<close> (the code points 0 to 8, 11, 12 and 14
  to 31);
  the six text columns of a record are such cells, an empty cell stands for \<open>None\<close>.\<close>

definition max_rows :: nat where
  "max_rows = 1048576"

definition illegal_character :: "char \<Rightarrow> bool" where
  "illegal_character c =
     (let n = (of_char c :: nat)
      in n \<le> 8 \<or> n = 11 \<or> n = 12 \<or> (14 \<le> n \<and> n \<le> 31))"

definition cell_accepted :: "string option \<Rightarrow> bool" where
  "cell_accepted x =
     (case x of
        None \<Rightarrow> True
      | Some s \<Rightarrow> \<not> list_ex illegal_character (take 32767 s))"

definition row_accepted :: "invoice_data \<Rightarrow> bool" where
  "row_accepted d =
     (cell_accepted (invoice_number d) \<and> cell_accepted (vendor_name d)
      \<and> cell_accepted (invoice_date d) \<and> cell_accepted (due_date d)
      \<and> cell_accepted (payment_status d) \<and> cell_accepted (Some (file_path d)))"

text \<open>\<open>process_invoices\<close>, from the list that \<open>download_invoices_from_gmail\<close> returned.
  \<open>None\<close> stands for the two early returns, where no report is written. The function
  has no handler around the writer, so what the writer raises leaves the function:
  \<open>file_error\<close> is the \<open>OSError\<close>, if any, that opening or saving the Excel file raises
  (it is what leaves the \<open>with\<close> block also when the block itself raised), and writing
  the data sheet raises as said above, before the summary is computed. The texts of the
  summary sheet hold no character that is refused. The banner lines that the function
  prints and the name of the Excel file are left out; \<open>invoice_sheet\<close> holds the records
  as they are handed to the writer.\<close>

definition process_invoices ::
  "world \<Rightarrow> string list \<Rightarrow> error option \<Rightarrow> (error + report option) \<times> world" where
  "process_invoices w downloaded_files file_error =
     (if downloaded_files = [] then (Inr None, w)
      else (case collect_invoice_data w downloaded_files of
              (Inl e, w1) \<Rightarrow> (Inl e, w1)
            | (Inr invoice_data_list, w1) \<Rightarrow>
                if invoice_data_list = [] then (Inr None, w1)
                else (case file_error of
                        Some e \<Rightarrow> (Inl e, w1)
                      | None \<Rightarrow>
                          if max_rows < length invoice_data_list then (Inl ValueError, w1)
                          else if \<not> list_all row_accepted invoice_data_list
                          then (Inl IllegalCharacterError, w1)
                          else (Inr (Some \<lparr> invoice_sheet = invoice_data_list,
                                            summary_sheet = summary_data invoice_data_list \<rparr>),
                                w1))))"

subsection \<open>The rules in the words of the specification\<close>

text \<open>The definitions of this part are not translations of source functions: they say,
  in the words of the specification or of a claim as it is proved, what a rule computes.
  The facts below compare them with the loops of the source.\<close>

text \<open>The value that the label rules store, in the words of a reader of the line: the
  text between the first and the second colon of the line (up to the end of the line
  when it has one colon only), stripped.\<close>

definition colon_field :: "string \<Rightarrow> string" where
  "colon_field line =
     py_strip (takeWhile (\<lambda>c. c \<noteq> CHR '':'') (tl (dropWhile (\<lambda>c. c \<noteq> CHR '':'') line)))"

text \<open>The three branches of the payment status rule, as a function of the stripped
  value.\<close>

definition normalize_status :: "string \<Rightarrow> string" where
  "normalize_status v =
     (if py_in ''unpaid'' (py_lower v) then ''Unpaid''
      else if py_in ''paid'' (py_lower v) then ''Paid''
      else v)"

text \<open>The test that the vendor loop applies to a line, in the words of the
  specification: stripped, the line is not empty, is longer than three characters, and
  its lower-cased text contains none of the seventeen stoplist words.\<close>

definition vendor_candidate :: "string \<Rightarrow> bool" where
  "vendor_candidate l =
     (py_strip l \<noteq> [] \<and> 3 < length (py_strip l)
      \<and> (\<forall>k\<in>set [''invoice'', ''bill'', ''date'', ''phone'', ''email'', ''address'',
                    ''description'', ''qty'', ''unit'', ''total'', ''please'', ''share'',
                    ''form'', ''within'', ''hours'', ''recent'', ''infusion''].
            \<not> py_in k (py_lower (py_strip l))))"

text \<open>What one line yields for the amount, in the words of the specification: the line
  must contain a dollar sign; of all matches of the currency pattern on the line the last
  one is taken, its commas are removed and the rest is parsed; a line without a match or
  with a last match that does not parse yields nothing.\<close>

definition line_amount :: "string \<Rightarrow> rat option" where
  "line_amount line =
     (if CHR ''$'' \<in> set line \<and> findall_amounts line \<noteq> []
      then (case py_float (remove_commas (last (findall_amounts line))) of
              Inr v \<Rightarrow> Some v
            | Inl e \<Rightarrow> None)
      else None)"

text \<open>The amount of a document, in the words of the specification: what the first line
  that yields an amount yields, and nothing when no line does.\<close>

definition first_amount :: "string list \<Rightarrow> rat option" where
  "first_amount lines =
     (case List.find (\<lambda>l. line_amount l \<noteq> None) lines of
        None \<Rightarrow> None
      | Some l \<Rightarrow> line_amount l)"

text \<open>The record for a document, as a function of what reading the file gave and of the
  path: the fields found in the lines of the text when the pages could be read, the
  record of the \<open>except\<close> branch otherwise.\<close>

definition document_lines :: "string list \<Rightarrow> string list" where
  "document_lines pages = py_split newline (concat (map (\<lambda>page. page @ [newline]) pages))"

definition document_data :: "error + string list \<Rightarrow> string \<Rightarrow> invoice_data" where
  "document_data r pdf_path =
     (case r of
        Inl e \<Rightarrow> empty_invoice_data pdf_path
      | Inr pages \<Rightarrow>
          \<lparr> invoice_number = extract_invoice_number (document_lines pages),
            vendor_name = extract_vendor_name (document_lines pages),
            invoice_date = extract_invoice_date (document_lines pages),
            invoice_amount = first_amount (document_lines pages),
            due_date = extract_due_date (document_lines pages),
            payment_status = extract_payment_status (document_lines pages),
            file_path = path_name pdf_path \<rparr>)"

text \<open>The test of \<open>process_invoices\<close> on a record: one of the three fields is true in the
  sense of Python.\<close>

definition has_some_data :: "invoice_data \<Rightarrow> bool" where
  "has_some_data d =
     (truthy_str (invoice_number d) \<or> truthy_num (invoice_amount d)
      \<or> truthy_str (vendor_name d))"

subsection \<open>Facts about the string primitives\<close>

lemma py_split_not_Nil: "py_split sep s \<noteq> []"
  by (induction s) (auto split: list.splits)

lemma py_split_no_sep: "sep \<notin> set s \<Longrightarrow> py_split sep s = [s]"
  by (induction s) auto

lemma py_split_sep:
  "sep \<in> set s \<Longrightarrow>
   py_split sep s =
     takeWhile (\<lambda>c. c \<noteq> sep) s # py_split sep (tl (dropWhile (\<lambda>c. c \<noteq> sep) s))"
proof (induction s)
  case Nil
  then show ?case by simp
next
  case (Cons c cs)
  show ?case
  proof (cases "c = sep")
    case True
    then show ?thesis by simp
  next
    case False
    with Cons.prems have "sep \<in> set cs" by simp
    from Cons.IH [OF this] False show ?thesis by simp
  qed
qed

lemma py_split_hd: "hd (py_split sep s) = takeWhile (\<lambda>c. c \<noteq> sep) s"
proof (cases "sep \<in> set s")
  case True
  then show ?thesis by (simp add: py_split_sep)
next
  case False
  then have tw: "takeWhile (\<lambda>c. c \<noteq> sep) s = s"
    by (induction s) auto
  show ?thesis
    unfolding py_split_no_sep [OF False] tw by simp
qed

lemma py_split_second:
  assumes "sep \<in> set s"
  shows "\<exists>ps. py_split sep s =
           takeWhile (\<lambda>c. c \<noteq> sep) s
           # takeWhile (\<lambda>c. c \<noteq> sep) (tl (dropWhile (\<lambda>c. c \<noteq> sep) s)) # ps"
proof -
  let ?r = "tl (dropWhile (\<lambda>c. c \<noteq> sep) s)"
  obtain q qs where q: "py_split sep ?r = q # qs"
    using py_split_not_Nil [of sep ?r] by (cases "py_split sep ?r") auto
  have "q = takeWhile (\<lambda>c. c \<noteq> sep) ?r"
    using py_split_hd [of sep ?r] q by simp
  with q py_split_sep [OF assms] show ?thesis by simp
qed

lemma starts_with_set: "starts_with p s \<Longrightarrow> set p \<subseteq> set s"
  by (induction p s rule: starts_with.induct) auto

lemma py_in_set: "py_in p s \<Longrightarrow> set p \<subseteq> set s"
proof (induction s)
  case Nil
  then show ?case by simp
next
  case (Cons c cs)
  from Cons.prems consider "starts_with p (c # cs)" | "py_in p cs" by auto
  then show ?case
  proof cases
    case 1
    then show ?thesis by (rule starts_with_set)
  next
    case 2
    with Cons.IH show ?thesis by auto
  qed
qed



lemma extract_labelled_find:
  assumes "CHR '':'' \<in> set label"
  shows "extract_labelled label lines =
           (case List.find (py_in label) lines of
              None \<Rightarrow> None
            | Some l \<Rightarrow> Some (colon_field l))"
proof (induction lines)
  case Nil
  then show ?case by simp
next
  case (Cons line rest)
  show ?case
  proof (cases "py_in label line")
    case True
    with assms have "CHR '':'' \<in> set line" using py_in_set by blast
    from py_split_second [OF this] obtain ps where
      "py_split (CHR '':'') line =
         takeWhile (\<lambda>c. c \<noteq> CHR '':'') line
         # takeWhile (\<lambda>c. c \<noteq> CHR '':'') (tl (dropWhile (\<lambda>c. c \<noteq> CHR '':'') line)) # ps"
      by blast
    with True show ?thesis by (simp add: colon_field_def)
  next
    case False
    with Cons.IH show ?thesis by simp
  qed
qed

lemma find_append_first:
  assumes "\<forall>l\<in>set pre. \<not> P l" and "P x"
  shows "List.find P (pre @ x # post) = Some x"
  using assms by (induction pre) auto

lemma find_none: "(\<forall>l\<in>set xs. \<not> P l) \<Longrightarrow> List.find P xs = None"
  by (induction xs) auto






lemma extract_labelled_first:
  assumes "CHR '':'' \<in> set label" and "\<forall>l\<in>set pre. \<not> py_in label l" and "py_in label x"
  shows "extract_labelled label (pre @ x # post) = Some (colon_field x)"
  by (simp add: extract_labelled_find [OF assms(1)] find_append_first [OF assms(2,3)])

lemma extract_labelled_absent:
  assumes "CHR '':'' \<in> set label" and "\<forall>l\<in>set lines. \<not> py_in label l"
  shows "extract_labelled label lines = None"
  by (simp add: extract_labelled_find [OF assms(1)] find_none [OF assms(2)])

text \<open>
  C3 (as amended). The invoice number is decided by the first line that contains the
  label \<open>Invoice Number:\<close>: it is the stripped text between the first and the second colon
  of that line (the whole rest of the line when it has no second colon), and it is
  \<open>None\<close> when no line contains the label. A line \<open>Invoice Number: INV-2024-001\<close> that is
  the first one with the label gives \<open>INV-2024-001\<close>.
\<close>

theorem invoice_number_rule:
  "extract_invoice_number lines =
     (case List.find (py_in ''Invoice Number:'') lines of
        None \<Rightarrow> None
      | Some l \<Rightarrow> Some (colon_field l))
   \<and> ((\<forall>l\<in>set lines. \<not> py_in ''Invoice Number:'' l) \<longrightarrow> extract_invoice_number lines = None)
   \<and> ((\<forall>l\<in>set pre. \<not> py_in ''Invoice Number:'' l) \<longrightarrow>
        extract_invoice_number (pre @ ''Invoice Number: INV-2024-001'' # post)
          = Some ''INV-2024-001'')"
proof -
  have c: "CHR '':'' \<in> set ''Invoice Number:''" by simp
  have ex: "py_in ''Invoice Number:'' ''Invoice Number: INV-2024-001''" by code_simp
  have cf: "colon_field ''Invoice Number: INV-2024-001'' = ''INV-2024-001''" by code_simp
  have 1: "extract_invoice_number lines =
     (case List.find (py_in ''Invoice Number:'') lines of
        None \<Rightarrow> None
      | Some l \<Rightarrow> Some (colon_field l))"
    unfolding extract_invoice_number_def by (rule extract_labelled_find [OF c])
  have 2: "(\<forall>l\<in>set lines. \<not> py_in ''Invoice Number:'' l) \<longrightarrow> extract_invoice_number lines = None"
    unfolding extract_invoice_number_def using extract_labelled_absent [OF c] by blast
  have 3: "(\<forall>l\<in>set pre. \<not> py_in ''Invoice Number:'' l) \<longrightarrow>
        extract_invoice_number (pre @ ''Invoice Number: INV-2024-001'' # post)
          = Some ''INV-2024-001''"
    unfolding extract_invoice_number_def
    using extract_labelled_first [OF c _ ex, of pre post] cf by simp
  from 1 2 3 show ?thesis by blast
qed

theorem invoice_number_rule_witness:
  "extract_invoice_number [''Acme Corp'', ''Ref: Invoice Number: 7'', ''Invoice Number: 8'']
     = Some ''Invoice Number''
   \<and> extract_invoice_number [''Acme Corp'', ''Total: $5''] = None
   \<and> extract_invoice_number [''Acme Corp'', ''Invoice Number: INV-2024-001'', ''Invoice Number: 8'']
     = Some ''INV-2024-001''"
proof -
  have a: "List.find (py_in ''Invoice Number:'')
             [''Acme Corp'', ''Ref: Invoice Number: 7'', ''Invoice Number: 8'']
           = Some ''Ref: Invoice Number: 7''"
    by code_simp
  have b: "colon_field ''Ref: Invoice Number: 7'' = ''Invoice Number''"
    by code_simp
  have c: "\<forall>l\<in>set [''Acme Corp'', ''Total: $5'']. \<not> py_in ''Invoice Number:'' l"
    by code_simp
  have d: "\<forall>l\<in>set [''Acme Corp'']. \<not> py_in ''Invoice Number:'' l"
    by code_simp
  show ?thesis
    using invoice_number_rule [of "[''Acme Corp'', ''Ref: Invoice Number: 7'', ''Invoice Number: 8'']"
            "[''Acme Corp'']" "[''Invoice Number: 8'']"]
          invoice_number_rule [of "[''Acme Corp'', ''Total: $5'']" "[]" "[]"]
          a b c d
    by simp
qed

text \<open>
  The claim as it was stated fails: a value that contains a colon is not returned in
  full. For the line \<open>Invoice Number: INV:2024\<close> the text after the first colon, stripped,
  is \<open>INV:2024\<close>, and the code stores \<open>INV\<close>.
\<close>

theorem invoice_number_colon_counterexample:
  "py_strip (tl (dropWhile (\<lambda>c. c \<noteq> CHR '':'') ''Invoice Number: INV:2024'')) = ''INV:2024''
   \<and> extract_invoice_number [''Invoice Number: INV:2024''] = Some ''INV''"
  by code_simp



lemma extract_payment_status_find:
  "extract_payment_status ls =
     (case List.find (py_in ''Payment Status:'') ls of
        None \<Rightarrow> None
      | Some l \<Rightarrow> Some (normalize_status (colon_field l)))"
proof (induction ls)
  case Nil
  then show ?case by simp
next
  case (Cons line rest)
  show ?case
  proof (cases "py_in ''Payment Status:'' line")
    case True
    have "CHR '':'' \<in> set ''Payment Status:''" by simp
    with py_in_set [OF True] have "CHR '':'' \<in> set line" by blast
    from py_split_second [OF this] obtain ps where sp:
      "py_split (CHR '':'') line =
         takeWhile (\<lambda>c. c \<noteq> CHR '':'') line
         # takeWhile (\<lambda>c. c \<noteq> CHR '':'') (tl (dropWhile (\<lambda>c. c \<noteq> CHR '':'') line)) # ps"
      by blast
    have "extract_payment_status (line # rest) = Some (normalize_status (colon_field line))"
      using True by (simp add: sp colon_field_def normalize_status_def Let_def)
    with True show ?thesis by simp
  next
    case False
    with Cons.IH show ?thesis by simp
  qed
qed

text \<open>
  C5 (as amended). The first line that contains the label \<open>Payment Status:\<close> decides the
  payment status, and the value it is decided from is the stripped text between the
  first and the second colon of that line (the whole rest of the line when it has no
  second colon): \<open>Unpaid\<close> when the lower-cased value contains \<open>unpaid\<close>, otherwise \<open>Paid\<close>
  when it contains \<open>paid\<close>, otherwise the value itself. What follows a second colon plays
  no part. With no line containing the label the status is \<open>None\<close>, which is not the
  empty string. The two examples of the specification are included.
\<close>

theorem payment_status_rule:
  "extract_payment_status lines =
     (case List.find (py_in ''Payment Status:'') lines of
        None \<Rightarrow> None
      | Some l \<Rightarrow>
          Some (if py_in ''unpaid'' (py_lower (colon_field l)) then ''Unpaid''
                else if py_in ''paid'' (py_lower (colon_field l)) then ''Paid''
                else colon_field l))
   \<and> ((\<forall>l\<in>set lines. \<not> py_in ''Payment Status:'' l) \<longrightarrow>
        extract_payment_status lines = None \<and> extract_payment_status lines \<noteq> Some [])
   \<and> ((\<forall>l\<in>set pre. \<not> py_in ''Payment Status:'' l) \<longrightarrow>
        extract_payment_status (pre @ ''Payment Status: UNPAID'' # post) = Some ''Unpaid''
        \<and> extract_payment_status (pre @ ''Payment Status: Paid in full'' # post) = Some ''Paid'')"
proof -
  have 1: "extract_payment_status lines =
     (case List.find (py_in ''Payment Status:'') lines of
        None \<Rightarrow> None
      | Some l \<Rightarrow>
          Some (if py_in ''unpaid'' (py_lower (colon_field l)) then ''Unpaid''
                else if py_in ''paid'' (py_lower (colon_field l)) then ''Paid''
                else colon_field l))"
    by (simp only: extract_payment_status_find normalize_status_def)
  have 2: "(\<forall>l\<in>set lines. \<not> py_in ''Payment Status:'' l) \<longrightarrow>
        extract_payment_status lines = None \<and> extract_payment_status lines \<noteq> Some []"
  proof
    assume "\<forall>l\<in>set lines. \<not> py_in ''Payment Status:'' l"
    then have "List.find (py_in ''Payment Status:'') lines = None"
      by (rule find_none)
    then have "extract_payment_status lines = None"
      by (simp add: extract_payment_status_find)
    then show "extract_payment_status lines = None \<and> extract_payment_status lines \<noteq> Some []"
      by simp
  qed
  have e1: "py_in ''Payment Status:'' ''Payment Status: UNPAID''" by code_simp
  have e2: "py_in ''Payment Status:'' ''Payment Status: Paid in full''" by code_simp
  have v1: "normalize_status (colon_field ''Payment Status: UNPAID'') = ''Unpaid''"
    by code_simp
  have v2: "normalize_status (colon_field ''Payment Status: Paid in full'') = ''Paid''"
    by code_simp
  have 3: "(\<forall>l\<in>set pre. \<not> py_in ''Payment Status:'' l) \<longrightarrow>
        extract_payment_status (pre @ ''Payment Status: UNPAID'' # post) = Some ''Unpaid''
        \<and> extract_payment_status (pre @ ''Payment Status: Paid in full'' # post) = Some ''Paid''"
  proof
    assume a: "\<forall>l\<in>set pre. \<not> py_in ''Payment Status:'' l"
    have f1: "List.find (py_in ''Payment Status:'') (pre @ ''Payment Status: UNPAID'' # post)
                = Some ''Payment Status: UNPAID''"
      using a e1 by (rule find_append_first)
    have f2: "List.find (py_in ''Payment Status:'') (pre @ ''Payment Status: Paid in full'' # post)
                = Some ''Payment Status: Paid in full''"
      using a e2 by (rule find_append_first)
    have r1: "extract_payment_status (pre @ ''Payment Status: UNPAID'' # post) = Some ''Unpaid''"
      by (simp only: extract_payment_status_find f1 v1 option.case)
    have r2: "extract_payment_status (pre @ ''Payment Status: Paid in full'' # post) = Some ''Paid''"
      by (simp only: extract_payment_status_find f2 v2 option.case)
    from r1 r2 show "extract_payment_status (pre @ ''Payment Status: UNPAID'' # post) = Some ''Unpaid''
        \<and> extract_payment_status (pre @ ''Payment Status: Paid in full'' # post) = Some ''Paid''"
      by (rule conjI)
  qed
  from 1 2 3 show ?thesis by (intro conjI)
qed

theorem payment_status_rule_witness:
  "extract_payment_status [''Acme Corp'', ''Payment Status: Pending'', ''Payment Status: Paid'']
     = Some ''Pending''
   \<and> extract_payment_status [''Acme Corp'', ''Total: $5''] = None
   \<and> extract_payment_status [''Acme Corp'', ''Payment Status: UNPAID'', ''Total: $5'']
     = Some ''Unpaid''
   \<and> extract_payment_status [''Acme Corp'', ''Payment Status: Paid in full'', ''Total: $5'']
     = Some ''Paid''"
proof -
  have a: "List.find (py_in ''Payment Status:'')
             [''Acme Corp'', ''Payment Status: Pending'', ''Payment Status: Paid'']
           = Some ''Payment Status: Pending''"
    by code_simp
  have b: "colon_field ''Payment Status: Pending'' = ''Pending''"
    by code_simp
  have c: "\<not> py_in ''unpaid'' (py_lower ''Pending'')" "\<not> py_in ''paid'' (py_lower ''Pending'')"
    by code_simp+
  have d: "\<forall>l\<in>set [''Acme Corp'', ''Total: $5'']. \<not> py_in ''Payment Status:'' l"
    by code_simp
  have e: "\<forall>l\<in>set [''Acme Corp'']. \<not> py_in ''Payment Status:'' l"
    by code_simp
  note t1 = payment_status_rule
            [of "[''Acme Corp'', ''Payment Status: Pending'', ''Payment Status: Paid'']"
                "[''Acme Corp'']" "[''Total: $5'']"]
  note t2 = payment_status_rule [of "[''Acme Corp'', ''Total: $5'']" "[]" "[]"]
  have w1: "extract_payment_status
              [''Acme Corp'', ''Payment Status: Pending'', ''Payment Status: Paid'']
            = Some ''Pending''"
    using t1 by (simp only: a b c option.case if_False)
  have w2: "extract_payment_status [''Acme Corp'', ''Total: $5''] = None"
    using t2 d by blast
  have w3: "extract_payment_status ([''Acme Corp''] @ ''Payment Status: UNPAID'' # [''Total: $5''])
     = Some ''Unpaid''"
    using t1 e by blast
  have w4: "extract_payment_status ([''Acme Corp''] @ ''Payment Status: Paid in full'' # [''Total: $5''])
     = Some ''Paid''"
    using t1 e by blast
  from w1 w2 w3 w4 show ?thesis by simp
qed

text \<open>
  The claim as it was stated fails, since the value is cut at a second colon. For the
  line \<open>Payment Status: prepaid:unpaid\<close> the stripped text after the label is
  \<open>prepaid:unpaid\<close>, which contains \<open>unpaid\<close>, and the code stores \<open>Paid\<close>; for the line
  \<open>Payment Status: due 12:00\<close> the stripped text after the label is \<open>due 12:00\<close>, which
  contains neither word, and the code stores \<open>due 12\<close>.
\<close>

theorem payment_status_colon_counterexample:
  "py_strip (tl (dropWhile (\<lambda>c. c \<noteq> CHR '':'') ''Payment Status: prepaid:unpaid''))
     = ''prepaid:unpaid''
   \<and> py_in ''unpaid'' (py_lower ''prepaid:unpaid'')
   \<and> extract_payment_status [''Payment Status: prepaid:unpaid''] = Some ''Paid''
   \<and> py_strip (tl (dropWhile (\<lambda>c. c \<noteq> CHR '':'') ''Payment Status: due 12:00''))
     = ''due 12:00''
   \<and> \<not> py_in ''unpaid'' (py_lower ''due 12:00'')
   \<and> \<not> py_in ''paid'' (py_lower ''due 12:00'')
   \<and> extract_payment_status [''Payment Status: due 12:00''] = Some ''due 12''"
  by code_simp

subsection \<open>The vendor name\<close>

lemma extract_vendor_name_find:
  "extract_vendor_name lines =
     (case List.find vendor_candidate lines of
        None \<Rightarrow> None
      | Some l \<Rightarrow> Some (py_strip l))"
proof (induction lines)
  case Nil
  then show ?case by simp
next
  case (Cons line0 rest)
  have c: "vendor_candidate line0 \<longleftrightarrow>
             (py_strip line0 \<noteq> [] \<and> 3 < length (py_strip line0)
              \<and> \<not> list_ex (\<lambda>k. py_in k (py_lower (py_strip line0))) skip_keywords)"
    unfolding vendor_candidate_def skip_keywords_def list_ex_iff by blast
  show ?case
  proof (cases "vendor_candidate line0")
    case True
    with c show ?thesis by (simp add: Let_def)
  next
    case False
    with c Cons.IH show ?thesis by (auto simp: Let_def)
  qed
qed

lemma find_Some_set: "List.find P xs = Some x \<Longrightarrow> x \<in> set xs \<and> P x"
  by (induction xs) (auto split: if_splits)

text \<open>
  C4. The vendor name is the first line that, stripped of white space, is not empty, is
  longer than three characters and whose lower-cased text contains none of the
  seventeen stoplist words; the value stored is that line stripped. It is \<open>None\<close> when no
  line qualifies.
\<close>

theorem vendor_name_rule:
  "extract_vendor_name lines =
     (case List.find
             (\<lambda>l. py_strip l \<noteq> [] \<and> 3 < length (py_strip l)
                  \<and> (\<forall>k\<in>set [''invoice'', ''bill'', ''date'', ''phone'', ''email'', ''address'',
                                ''description'', ''qty'', ''unit'', ''total'', ''please'',
                                ''share'', ''form'', ''within'', ''hours'', ''recent'',
                                ''infusion''].
                        \<not> py_in k (py_lower (py_strip l))))
             lines of
        None \<Rightarrow> None
      | Some l \<Rightarrow> Some (py_strip l))"
proof -
  have "vendor_candidate =
          (\<lambda>l. py_strip l \<noteq> [] \<and> 3 < length (py_strip l)
                  \<and> (\<forall>k\<in>set [''invoice'', ''bill'', ''date'', ''phone'', ''email'', ''address'',
                                ''description'', ''qty'', ''unit'', ''total'', ''please'',
                                ''share'', ''form'', ''within'', ''hours'', ''recent'',
                                ''infusion''].
                        \<not> py_in k (py_lower (py_strip l))))"
    by (rule ext) (rule vendor_candidate_def)
  then show ?thesis
    using extract_vendor_name_find [of lines] by simp
qed

theorem vendor_name_rule_witness:
  "extract_vendor_name [''INVOICE'', ''  '', ''Ltd'', ''  Acme Corp  '', ''Bolt Inc''] = Some ''Acme Corp''
   \<and> extract_vendor_name [''INVOICE'', ''Total: $5'', ''abc''] = None"
proof -
  have a: "List.find vendor_candidate [''INVOICE'', ''  '', ''Ltd'', ''  Acme Corp  '', ''Bolt Inc'']
             = Some ''  Acme Corp  ''"
    by code_simp
  have b: "py_strip ''  Acme Corp  '' = ''Acme Corp''"
    by code_simp
  have c: "List.find vendor_candidate [''INVOICE'', ''Total: $5'', ''abc''] = None"
    by code_simp
  have w1: "extract_vendor_name [''INVOICE'', ''  '', ''Ltd'', ''  Acme Corp  '', ''Bolt Inc'']
              = Some ''Acme Corp''"
    using vendor_name_rule [of "[''INVOICE'', ''  '', ''Ltd'', ''  Acme Corp  '', ''Bolt Inc'']"]
          a [unfolded vendor_candidate_def] b
    by simp
  have w2: "extract_vendor_name [''INVOICE'', ''Total: $5'', ''abc''] = None"
    using vendor_name_rule [of "[''INVOICE'', ''Total: $5'', ''abc'']"]
          c [unfolded vendor_candidate_def]
    by simp
  from w1 w2 show ?thesis by (rule conjI)
qed

subsection \<open>The invoice amount\<close>

lemma py_float_error: "py_float s = Inl e \<Longrightarrow> e = ValueError"
  by (auto simp: py_float_def Let_def split: list.splits if_splits)

lemma extract_invoice_amount_first: "extract_invoice_amount lines = Inr (first_amount lines)"
proof (induction lines)
  case Nil
  then show ?case by (simp add: first_amount_def)
next
  case (Cons line rest)
  have rest: "extract_invoice_amount rest = Inr (first_amount rest)" by (rule Cons.IH)
  show ?case
  proof (cases "line_amount line")
    case None
    have "extract_invoice_amount (line # rest) = extract_invoice_amount rest"
    proof (cases "CHR ''$'' \<in> set line \<and> findall_amounts line \<noteq> []")
      case False
      then show ?thesis by (auto split: list.splits)
    next
      case True
      then obtain a as where as: "findall_amounts line = a # as"
        by (cases "findall_amounts line") auto
      from None True obtain e where "py_float (remove_commas (last (findall_amounts line))) = Inl e"
        by (auto simp: line_amount_def split: sum.splits)
      moreover from this have "e = ValueError" by (rule py_float_error)
      ultimately have "py_float (remove_commas (last (a # as))) = Inl ValueError"
        using as by simp
      with True as show ?thesis by simp
    qed
    moreover have "first_amount (line # rest) = first_amount rest"
      using None by (simp add: first_amount_def)
    ultimately show ?thesis using rest by simp
  next
    case (Some v)
    then have t: "CHR ''$'' \<in> set line" "findall_amounts line \<noteq> []"
      by (auto simp: line_amount_def split: if_splits)
    then obtain a as where as: "findall_amounts line = a # as"
      by (cases "findall_amounts line") auto
    from Some t have "py_float (remove_commas (last (findall_amounts line))) = Inr v"
      by (auto simp: line_amount_def split: sum.splits)
    then have "py_float (remove_commas (last (a # as))) = Inr v"
      using as by simp
    with t as have "extract_invoice_amount (line # rest) = Inr (Some v)" by simp
    moreover have "first_amount (line # rest) = Some v"
      using Some by (simp add: first_amount_def)
    ultimately show ?thesis by simp
  qed
qed

lemmas amount_eval =
  line_amount_def py_float_def remove_commas_def amount_match_def is_digit_or_comma_def
  is_digit_def



subsection \<open>The record that \<open>extract_invoice_data\<close> returns\<close>

lemma scan_text_Inr:
  "scan_text t p =
     Inr \<lparr> invoice_number = extract_invoice_number (py_split newline t),
           vendor_name = extract_vendor_name (py_split newline t),
           invoice_date = extract_invoice_date (py_split newline t),
           invoice_amount = first_amount (py_split newline t),
           due_date = extract_due_date (py_split newline t),
           payment_status = extract_payment_status (py_split newline t),
           file_path = path_name p \<rparr>"
  by (simp add: scan_text_def Let_def extract_invoice_amount_first)

lemma read_pages_print_line [simp]: "read_pages (print_line x w) p = read_pages w p"
  by (simp add: read_pages_def print_line_def)

lemma pdf_files_print_line [simp]: "pdf_files (print_line x w) = pdf_files w"
  by (simp add: print_line_def)

lemma try_extract_Inl:
  "read_pages w p = Inl e \<Longrightarrow>
   try_extract w p = (Inl e, print_line (Processing (path_name p)) w)"
  by (simp add: try_extract_def Let_def)

lemma try_extract_Inr:
  "read_pages w p = Inr pages \<Longrightarrow>
   try_extract w p =
     (Inr (document_data (Inr pages) p),
      print_line (Extracted (document_data (Inr pages) p))
        (print_line (Processing (path_name p)) w))"
  by (simp add: try_extract_def Let_def scan_text_Inr document_data_def document_lines_def)

lemma try_extract_fails_iff:
  "(\<exists>w1. try_extract w p = (Inl e, w1)) \<longleftrightarrow> read_pages w p = Inl e"
  by (cases "read_pages w p") (auto simp: try_extract_Inl try_extract_Inr)

lemma extract_invoice_data_fst:
  "fst (extract_invoice_data w p) = Inr (document_data (read_pages w p) p)"
  by (cases "read_pages w p")
     (simp_all add: extract_invoice_data_def try_extract_Inl try_extract_Inr document_data_def)

lemma extract_invoice_data_files:
  "pdf_files (snd (extract_invoice_data w p)) = pdf_files w"
  by (cases "read_pages w p")
     (simp_all add: extract_invoice_data_def try_extract_Inl try_extract_Inr)

lemma read_pages_cong: "pdf_files w = pdf_files w' \<Longrightarrow> read_pages w p = read_pages w' p"
  by (simp add: read_pages_def)

subsection \<open>Extraction never raises\<close>

text \<open>
  C1. For every state of the files and every path, \<open>extract_invoice_data\<close> returns a
  record and raises nothing: the record has the seven fields and its \<open>file_path\<close> is the
  base name of the path. Whenever the body of the \<open>try\<close> block raises (the file is
  missing or cannot be read; scanning the lines raises nothing), the result is the
  record with the six data fields \<open>None\<close> and the base name of the path.
\<close>

theorem extract_never_raises:
  "(\<exists>d. fst (extract_invoice_data w p) = Inr d
         \<and> file_path d = path_name p
         \<and> d = \<lparr> invoice_number = invoice_number d, vendor_name = vendor_name d,
                 invoice_date = invoice_date d, invoice_amount = invoice_amount d,
                 due_date = due_date d, payment_status = payment_status d,
                 file_path = file_path d \<rparr>)
   \<and> (\<forall>e w1. try_extract w p = (Inl e, w1) \<longrightarrow>
         fst (extract_invoice_data w p) =
           Inr \<lparr> invoice_number = None, vendor_name = None, invoice_date = None,
                 invoice_amount = None, due_date = None, payment_status = None,
                 file_path = path_name p \<rparr>)
   \<and> (\<forall>e. read_pages w p = Inl e \<longrightarrow>
         fst (extract_invoice_data w p) =
           Inr \<lparr> invoice_number = None, vendor_name = None, invoice_date = None,
                 invoice_amount = None, due_date = None, payment_status = None,
                 file_path = path_name p \<rparr>)
   \<and> (\<forall>t. \<exists>d. scan_text t p = Inr d)"
proof -
  let ?d = "document_data (read_pages w p) p"
  have fp: "file_path ?d = path_name p"
    by (cases "read_pages w p") (simp_all add: document_data_def empty_invoice_data_def)
  have 1: "\<exists>d. fst (extract_invoice_data w p) = Inr d
         \<and> file_path d = path_name p
         \<and> d = \<lparr> invoice_number = invoice_number d, vendor_name = vendor_name d,
                 invoice_date = invoice_date d, invoice_amount = invoice_amount d,
                 due_date = due_date d, payment_status = payment_status d,
                 file_path = file_path d \<rparr>"
    using extract_invoice_data_fst [of w p] fp by (intro exI [of _ ?d]) simp
  have 3: "\<forall>e. read_pages w p = Inl e \<longrightarrow>
         fst (extract_invoice_data w p) =
           Inr \<lparr> invoice_number = None, vendor_name = None, invoice_date = None,
                 invoice_amount = None, due_date = None, payment_status = None,
                 file_path = path_name p \<rparr>"
    by (simp add: extract_invoice_data_fst document_data_def empty_invoice_data_def)
  have 2: "\<forall>e w1. try_extract w p = (Inl e, w1) \<longrightarrow>
         fst (extract_invoice_data w p) =
           Inr \<lparr> invoice_number = None, vendor_name = None, invoice_date = None,
                 invoice_amount = None, due_date = None, payment_status = None,
                 file_path = path_name p \<rparr>"
    using 3 try_extract_fails_iff [of w p] by blast
  have 4: "\<forall>t. \<exists>d. scan_text t p = Inr d"
    using scan_text_Inr by blast
  from 1 2 3 4 show ?thesis by (intro conjI)
qed

theorem extract_never_raises_witness:
  "read_pages \<lparr> pdf_files = [(''input/a.pdf'', Inr [''Acme Corp'']),
                              (''input/bad.pdf'', Inl PdfReadError)],
                 stdout = [] \<rparr> ''input/bad.pdf'' = Inl PdfReadError
   \<and> fst (extract_invoice_data
            \<lparr> pdf_files = [(''input/a.pdf'', Inr [''Acme Corp'']),
                            (''input/bad.pdf'', Inl PdfReadError)],
               stdout = [] \<rparr> ''input/bad.pdf'')
       = Inr \<lparr> invoice_number = None, vendor_name = None, invoice_date = None,
               invoice_amount = None, due_date = None, payment_status = None,
               file_path = ''bad.pdf'' \<rparr>
   \<and> fst (extract_invoice_data
            \<lparr> pdf_files = [(''input/a.pdf'', Inr [''Acme Corp'']),
                            (''input/bad.pdf'', Inl PdfReadError)],
               stdout = [] \<rparr> ''input/missing.pdf'')
       = Inr \<lparr> invoice_number = None, vendor_name = None, invoice_date = None,
               invoice_amount = None, due_date = None, payment_status = None,
               file_path = ''missing.pdf'' \<rparr>"
proof -
  let ?w = "\<lparr> pdf_files = [(''input/a.pdf'', Inr [''Acme Corp'']),
                            (''input/bad.pdf'', Inl PdfReadError)],
               stdout = [] \<rparr>"
  have r1: "read_pages ?w ''input/bad.pdf'' = Inl PdfReadError"
    by (simp add: read_pages_def)
  have r2: "read_pages ?w ''input/missing.pdf'' = Inl FileNotFoundError"
    by (simp add: read_pages_def)
  have n1: "path_name ''input/bad.pdf'' = ''bad.pdf''" by code_simp
  have n2: "path_name ''input/missing.pdf'' = ''missing.pdf''" by code_simp
  have w1: "fst (extract_invoice_data ?w ''input/bad.pdf'')
       = Inr \<lparr> invoice_number = None, vendor_name = None, invoice_date = None,
               invoice_amount = None, due_date = None, payment_status = None,
               file_path = ''bad.pdf'' \<rparr>"
    using extract_never_raises [of ?w "''input/bad.pdf''"] r1 n1 by simp
  have w2: "fst (extract_invoice_data ?w ''input/missing.pdf'')
       = Inr \<lparr> invoice_number = None, vendor_name = None, invoice_date = None,
               invoice_amount = None, due_date = None, payment_status = None,
               file_path = ''missing.pdf'' \<rparr>"
    using extract_never_raises [of ?w "''input/missing.pdf''"] r2 n2 by simp
  from r1 w1 w2 show ?thesis by (intro conjI)
qed

subsection \<open>Determinism\<close>

text \<open>
  C8. Extraction is a function of the text read and of the file name only, and it keeps
  no state between calls: running it a second time, in the state that the first run
  left, gives the same record (as does any later run on the same path); a run changes
  nothing but the printed output, the files stay as they were; and two runs, in any two
  states and on any two paths, agree on every field whenever reading gives the same
  pages and the paths have the same base name.
\<close>

theorem extraction_deterministic:
  "fst (extract_invoice_data (snd (extract_invoice_data w p)) p) = fst (extract_invoice_data w p)
   \<and> pdf_files (snd (extract_invoice_data w p)) = pdf_files w
   \<and> fst (extract_invoice_data (snd (extract_invoice_data w q)) p) = fst (extract_invoice_data w p)
   \<and> (read_pages w p = read_pages w' p' \<and> path_name p = path_name p' \<longrightarrow>
        fst (extract_invoice_data w p) = fst (extract_invoice_data w' p'))"
proof -
  have same: "read_pages (snd (extract_invoice_data w q)) p = read_pages w p" for q
    by (rule read_pages_cong) (rule extract_invoice_data_files)
  have 1: "fst (extract_invoice_data (snd (extract_invoice_data w p)) p)
             = fst (extract_invoice_data w p)"
    by (simp only: extract_invoice_data_fst same)
  have 2: "pdf_files (snd (extract_invoice_data w p)) = pdf_files w"
    by (rule extract_invoice_data_files)
  have 3: "fst (extract_invoice_data (snd (extract_invoice_data w q)) p)
             = fst (extract_invoice_data w p)"
    by (simp only: extract_invoice_data_fst same)
  have 4: "read_pages w p = read_pages w' p' \<and> path_name p = path_name p' \<longrightarrow>
        fst (extract_invoice_data w p) = fst (extract_invoice_data w' p')"
  proof
    assume a: "read_pages w p = read_pages w' p' \<and> path_name p = path_name p'"
    have "document_data (read_pages w' p') p = document_data (read_pages w' p') p'"
      using a by (cases "read_pages w' p'") (simp_all add: document_data_def empty_invoice_data_def)
    with a show "fst (extract_invoice_data w p) = fst (extract_invoice_data w' p')"
      by (simp add: extract_invoice_data_fst)
  qed
  from 1 2 3 4 show ?thesis by (intro conjI)
qed

theorem extraction_deterministic_witness:
  "read_pages \<lparr> pdf_files = [(''input/a.pdf'', Inr [''Acme Corp''])], stdout = [] \<rparr> ''input/a.pdf''
     = read_pages \<lparr> pdf_files = [(''old/a.pdf'', Inr [''Acme Corp''])],
                    stdout = [Processing ''x.pdf''] \<rparr> ''old/a.pdf''
   \<and> path_name ''input/a.pdf'' = path_name ''old/a.pdf''
   \<and> fst (extract_invoice_data
            \<lparr> pdf_files = [(''input/a.pdf'', Inr [''Acme Corp''])], stdout = [] \<rparr> ''input/a.pdf'')
     = fst (extract_invoice_data
              \<lparr> pdf_files = [(''old/a.pdf'', Inr [''Acme Corp''])],
                 stdout = [Processing ''x.pdf''] \<rparr> ''old/a.pdf'')"
proof -
  let ?w = "\<lparr> pdf_files = [(''input/a.pdf'', Inr [''Acme Corp''])], stdout = [] \<rparr>"
  let ?w' = "\<lparr> pdf_files = [(''old/a.pdf'', Inr [''Acme Corp''])],
                 stdout = [Processing ''x.pdf''] \<rparr>"
  have r: "read_pages ?w ''input/a.pdf'' = read_pages ?w' ''old/a.pdf''"
    by (simp add: read_pages_def)
  have n: "path_name ''input/a.pdf'' = path_name ''old/a.pdf''"
    by code_simp
  have e: "fst (extract_invoice_data ?w ''input/a.pdf'')
             = fst (extract_invoice_data ?w' ''old/a.pdf'')"
    using extraction_deterministic [of ?w "''input/a.pdf''" "''input/a.pdf''" ?w' "''old/a.pdf''"] r n
    by blast
  from r n e show ?thesis by (intro conjI)
qed

lemma extract_vendor_name_Some:
  assumes "extract_vendor_name lines = Some v"
  shows "\<exists>l\<in>set lines. v = py_strip l \<and> vendor_candidate l"
proof -
  from assms obtain l where l: "List.find vendor_candidate lines = Some l" "v = py_strip l"
    by (auto simp: extract_vendor_name_find split: option.splits)
  from find_Some_set [OF l(1)] l(2) show ?thesis by blast
qed

text \<open>
  C10. Whenever the vendor name of the returned record is not \<open>None\<close>, it is one of the
  lines of the text that was read, stripped of surrounding white space; it is longer than
  three characters; and its lower-cased text contains none of the seventeen stoplist
  words. The same holds for the vendor rule on any sequence of lines.
\<close>

theorem vendor_name_invariant:
  "(extract_vendor_name lines = Some v \<longrightarrow>
      (\<exists>l\<in>set lines. v = py_strip l) \<and> 3 < length v
      \<and> (\<forall>k\<in>set [''invoice'', ''bill'', ''date'', ''phone'', ''email'', ''address'',
                    ''description'', ''qty'', ''unit'', ''total'', ''please'', ''share'',
                    ''form'', ''within'', ''hours'', ''recent'', ''infusion''].
            \<not> py_in k (py_lower v)))
   \<and> (fst (extract_invoice_data w p) = Inr d \<and> vendor_name d = Some u \<longrightarrow>
      (\<exists>pages. read_pages w p = Inr pages
         \<and> (\<exists>l\<in>set (py_split newline (concat (map (\<lambda>page. page @ [newline]) pages))).
               u = py_strip l))
      \<and> 3 < length u
      \<and> (\<forall>k\<in>set [''invoice'', ''bill'', ''date'', ''phone'', ''email'', ''address'',
                    ''description'', ''qty'', ''unit'', ''total'', ''please'', ''share'',
                    ''form'', ''within'', ''hours'', ''recent'', ''infusion''].
            \<not> py_in k (py_lower u)))
   \<and> length [''invoice'', ''bill'', ''date'', ''phone'', ''email'', ''address'',
             ''description'', ''qty'', ''unit'', ''total'', ''please'', ''share'',
             ''form'', ''within'', ''hours'', ''recent'', ''infusion''] = (17::nat)"
proof -
  let ?ks = "[''invoice'', ''bill'', ''date'', ''phone'', ''email'', ''address'',
              ''description'', ''qty'', ''unit'', ''total'', ''please'', ''share'',
              ''form'', ''within'', ''hours'', ''recent'', ''infusion'']"
  have core: "(\<exists>l\<in>set ls. x = py_strip l) \<and> 3 < length x
              \<and> (\<forall>k\<in>set ?ks. \<not> py_in k (py_lower x))"
    if "extract_vendor_name ls = Some x" for ls x
  proof -
    from extract_vendor_name_Some [OF that] obtain l where
      l: "l \<in> set ls" "x = py_strip l" "vendor_candidate l" by blast
    from l(3) have "3 < length (py_strip l)"
      and "\<forall>k\<in>set ?ks. \<not> py_in k (py_lower (py_strip l))"
      unfolding vendor_candidate_def by blast+
    with l(1,2) show ?thesis by blast
  qed
  have 1: "extract_vendor_name lines = Some v \<longrightarrow>
      (\<exists>l\<in>set lines. v = py_strip l) \<and> 3 < length v
      \<and> (\<forall>k\<in>set ?ks. \<not> py_in k (py_lower v))"
    using core [of lines v] by blast
  have 2: "fst (extract_invoice_data w p) = Inr d \<and> vendor_name d = Some u \<longrightarrow>
      (\<exists>pages. read_pages w p = Inr pages
         \<and> (\<exists>l\<in>set (py_split newline (concat (map (\<lambda>page. page @ [newline]) pages))).
               u = py_strip l))
      \<and> 3 < length u
      \<and> (\<forall>k\<in>set ?ks. \<not> py_in k (py_lower u))"
  proof
    assume a: "fst (extract_invoice_data w p) = Inr d \<and> vendor_name d = Some u"
    then have d: "d = document_data (read_pages w p) p"
      by (simp add: extract_invoice_data_fst)
    show "(\<exists>pages. read_pages w p = Inr pages
         \<and> (\<exists>l\<in>set (py_split newline (concat (map (\<lambda>page. page @ [newline]) pages))).
               u = py_strip l))
      \<and> 3 < length u
      \<and> (\<forall>k\<in>set ?ks. \<not> py_in k (py_lower u))"
    proof (cases "read_pages w p")
      case (Inl e)
      with a d show ?thesis
        by (simp add: document_data_def empty_invoice_data_def)
    next
      case (Inr pages)
      with a d have "extract_vendor_name (document_lines pages) = Some u"
        by (simp add: document_data_def)
      from core [OF this] Inr show ?thesis
        unfolding document_lines_def by blast
    qed
  qed
  have 3: "length ?ks = (17::nat)" by simp
  from 1 2 3 show ?thesis by (intro conjI)
qed

theorem vendor_name_invariant_witness:
  "extract_vendor_name [''INVOICE'', ''  Acme Corp  '', ''Bolt Inc''] = Some ''Acme Corp''
   \<and> 3 < length ''Acme Corp''
   \<and> \<not> py_in ''invoice'' (py_lower ''Acme Corp'')
   \<and> fst (extract_invoice_data
            \<lparr> pdf_files = [(''input/a.pdf'', Inr [''INVOICE'', ''  Acme Corp  ''])], stdout = [] \<rparr>
            ''input/a.pdf'')
       = Inr \<lparr> invoice_number = None, vendor_name = Some ''Acme Corp'', invoice_date = None,
               invoice_amount = None, due_date = None, payment_status = None,
               file_path = ''a.pdf'' \<rparr>"
proof -
  let ?w = "\<lparr> pdf_files = [(''input/a.pdf'', Inr [''INVOICE'', ''  Acme Corp  ''])], stdout = [] \<rparr>"
  let ?d = "\<lparr> invoice_number = None, vendor_name = Some ''Acme Corp'', invoice_date = None,
               invoice_amount = None, due_date = None, payment_status = None,
               file_path = ''a.pdf'' \<rparr>"
  have v: "extract_vendor_name [''INVOICE'', ''  Acme Corp  '', ''Bolt Inc''] = Some ''Acme Corp''"
    by code_simp
  have r: "read_pages ?w ''input/a.pdf'' = Inr [''INVOICE'', ''  Acme Corp  '']"
    by (simp add: read_pages_def)
  have ls: "document_lines [''INVOICE'', ''  Acme Corp  ''] = [''INVOICE'', ''  Acme Corp  '', []]"
    by code_simp
  have f: "extract_invoice_number [''INVOICE'', ''  Acme Corp  '', []] = None"
    "extract_vendor_name [''INVOICE'', ''  Acme Corp  '', []] = Some ''Acme Corp''"
    "extract_invoice_date [''INVOICE'', ''  Acme Corp  '', []] = None"
    "extract_due_date [''INVOICE'', ''  Acme Corp  '', []] = None"
    "extract_payment_status [''INVOICE'', ''  Acme Corp  '', []] = None"
    "path_name ''input/a.pdf'' = ''a.pdf''"
    by code_simp+
  have am: "first_amount [''INVOICE'', ''  Acme Corp  '', []] = None"
    by (simp add: first_amount_def line_amount_def)
  have e: "fst (extract_invoice_data ?w ''input/a.pdf'') = Inr ?d"
    by (simp only: extract_invoice_data_fst r document_data_def sum.case ls f am)
  note t = vendor_name_invariant
             [of "[''INVOICE'', ''  Acme Corp  '', ''Bolt Inc'']" "''Acme Corp''"
                 ?w "''input/a.pdf''" ?d "''Acme Corp''"]
  have a: "3 < length ''Acme Corp''"
    using t v by blast
  have b: "\<not> py_in ''invoice'' (py_lower ''Acme Corp'')"
    using t v by simp
  from v a b e show ?thesis by (intro conjI)
qed

subsection \<open>Selection of the records\<close>

lemma collect_invoice_data_eq:
  "fst (collect_invoice_data w files) =
     Inr (filter has_some_data (map (\<lambda>f. document_data (read_pages w f) f) files))
   \<and> pdf_files (snd (collect_invoice_data w files)) = pdf_files w"
proof (induction files arbitrary: w)
  case Nil
  then show ?case by simp
next
  case (Cons f rest)
  obtain w1 where e: "extract_invoice_data w f = (Inr (document_data (read_pages w f) f), w1)"
    using extract_invoice_data_fst [of w f] by (cases "extract_invoice_data w f") auto
  have fl: "pdf_files w1 = pdf_files w"
    using extract_invoice_data_files [of w f] e by simp
  then have rp: "read_pages w1 g = read_pages w g" for g
    by (rule read_pages_cong)
  obtain w2 where c: "collect_invoice_data w1 rest =
      (Inr (filter has_some_data (map (\<lambda>f. document_data (read_pages w1 f) f) rest)), w2)"
    using Cons.IH [of w1] by (cases "collect_invoice_data w1 rest") auto
  have fl2: "pdf_files w2 = pdf_files w1"
    using Cons.IH [of w1] c by simp
  show ?case
    using e c fl fl2 by (simp add: rp has_some_data_def [symmetric])
qed

lemma first_amount_Nil: "first_amount [] = None"
  by (simp add: first_amount_def)

lemma first_amount_Cons:
  "first_amount (l # ls) = (case line_amount l of None \<Rightarrow> first_amount ls | Some v \<Rightarrow> Some v)"
  by (cases "line_amount l") (simp_all add: first_amount_def)

lemma line_amount_Nil: "line_amount [] = None"
  by (simp add: line_amount_def)

lemmas first_amount_eval = first_amount_Cons first_amount_Nil line_amount_Nil option.case

lemma truthy_str_iff: "truthy_str x \<longleftrightarrow> x \<noteq> None \<and> x \<noteq> Some []"
  by (cases x) (simp_all add: truthy_str_def)

lemma truthy_num_iff: "truthy_num x \<longleftrightarrow> x \<noteq> None \<and> x \<noteq> Some 0"
  by (cases x) (simp_all add: truthy_num_def)

text \<open>
  C6 (as amended). The loop of \<open>process_invoices\<close> keeps the records in the order of the
  files and leaves a record out exactly when none of \<open>invoice_number\<close>, \<open>invoice_amount\<close>
  and \<open>vendor_name\<close> is true in the sense of Python: each of the three is \<open>None\<close>, or an
  empty string, or the amount zero. A record with one of the three fields non-empty and
  non-zero is kept, whatever the other fields are.
\<close>

theorem records_kept:
  "fst (collect_invoice_data w files) =
     Inr (filter
            (\<lambda>d. (invoice_number d \<noteq> None \<and> invoice_number d \<noteq> Some [])
                 \<or> (invoice_amount d \<noteq> None \<and> invoice_amount d \<noteq> Some 0)
                 \<or> (vendor_name d \<noteq> None \<and> vendor_name d \<noteq> Some []))
            (map (\<lambda>f. document_data (read_pages w f) f) files))"
proof -
  have "has_some_data =
          (\<lambda>d. (invoice_number d \<noteq> None \<and> invoice_number d \<noteq> Some [])
                 \<or> (invoice_amount d \<noteq> None \<and> invoice_amount d \<noteq> Some 0)
                 \<or> (vendor_name d \<noteq> None \<and> vendor_name d \<noteq> Some []))"
    by (rule ext) (simp add: has_some_data_def truthy_str_iff truthy_num_iff)
  with collect_invoice_data_eq [of w files] show ?thesis by simp
qed

theorem records_kept_witness:
  "fst (collect_invoice_data
          \<lparr> pdf_files = [(''input/a.pdf'', Inr [''Acme Corp'', ''Total: $12.50'']),
                          (''input/e.pdf'', Inr [''Total: none''])],
             stdout = [] \<rparr>
          [''input/e.pdf'', ''input/a.pdf'', ''input/missing.pdf''])
     = Inr [\<lparr> invoice_number = None, vendor_name = Some ''Acme Corp'', invoice_date = None,
              invoice_amount = Some (25 / 2), due_date = None, payment_status = None,
              file_path = ''a.pdf'' \<rparr>]"
proof -
  let ?w = "\<lparr> pdf_files = [(''input/a.pdf'', Inr [''Acme Corp'', ''Total: $12.50'']),
                          (''input/e.pdf'', Inr [''Total: none''])],
             stdout = [] \<rparr>"
  have r: "read_pages ?w ''input/a.pdf'' = Inr [''Acme Corp'', ''Total: $12.50'']"
    "read_pages ?w ''input/e.pdf'' = Inr [''Total: none'']"
    "read_pages ?w ''input/missing.pdf'' = Inl FileNotFoundError"
    by (simp_all add: read_pages_def)
  have la: "document_lines [''Acme Corp'', ''Total: $12.50''] = [''Acme Corp'', ''Total: $12.50'', []]"
    by code_simp
  have le: "document_lines [''Total: none''] = [''Total: none'', []]"
    by code_simp
  have fa: "extract_invoice_number [''Acme Corp'', ''Total: $12.50'', []] = None"
    "extract_vendor_name [''Acme Corp'', ''Total: $12.50'', []] = Some ''Acme Corp''"
    "extract_invoice_date [''Acme Corp'', ''Total: $12.50'', []] = None"
    "extract_due_date [''Acme Corp'', ''Total: $12.50'', []] = None"
    "extract_payment_status [''Acme Corp'', ''Total: $12.50'', []] = None"
    "path_name ''input/a.pdf'' = ''a.pdf''"
    by code_simp+
  have fe: "extract_invoice_number [''Total: none'', []] = None"
    "extract_vendor_name [''Total: none'', []] = None"
    "extract_invoice_date [''Total: none'', []] = None"
    "extract_due_date [''Total: none'', []] = None"
    "extract_payment_status [''Total: none'', []] = None"
    "path_name ''input/e.pdf'' = ''e.pdf''"
    by code_simp+
  have l1: "line_amount ''Acme Corp'' = None"
    by (simp add: amount_eval)
  have l2: "line_amount ''Total: $12.50'' = Some (25 / 2)"
    by (simp add: amount_eval)
  have aa: "first_amount [''Acme Corp'', ''Total: $12.50'', []] = Some (25 / 2)"
    by (simp only: first_amount_eval l1 l2)
  have l3: "line_amount ''Total: none'' = None"
    by (simp add: amount_eval)
  have ae: "first_amount [''Total: none'', []] = None"
    by (simp only: first_amount_eval l3)
  have da: "document_data (read_pages ?w ''input/a.pdf'') ''input/a.pdf''
      = \<lparr> invoice_number = None, vendor_name = Some ''Acme Corp'', invoice_date = None,
              invoice_amount = Some (25 / 2), due_date = None, payment_status = None,
              file_path = ''a.pdf'' \<rparr>"
    by (simp only: r document_data_def sum.case la fa aa)
  have de: "document_data (read_pages ?w ''input/e.pdf'') ''input/e.pdf''
      = \<lparr> invoice_number = None, vendor_name = None, invoice_date = None,
              invoice_amount = None, due_date = None, payment_status = None,
              file_path = ''e.pdf'' \<rparr>"
    by (simp only: r document_data_def sum.case le fe ae)
  have dm: "document_data (read_pages ?w ''input/missing.pdf'') ''input/missing.pdf''
      = \<lparr> invoice_number = None, vendor_name = None, invoice_date = None,
              invoice_amount = None, due_date = None, payment_status = None,
              file_path = path_name ''input/missing.pdf'' \<rparr>"
    by (simp only: r document_data_def sum.case empty_invoice_data_def)
  show ?thesis
    using records_kept [of ?w "[''input/e.pdf'', ''input/a.pdf'', ''input/missing.pdf'']"]
    by (simp add: da de dm)
qed

text \<open>
  The claim as it was stated fails: a record with a non-null field can be left out. A
  document whose only text is \<open>$0\<close> has the amount 0, which is not \<open>None\<close>, and a document
  whose only text is \<open>Invoice Number:\<close> has the empty string as invoice number, which is
  not \<open>None\<close>; neither record is kept.
\<close>

theorem records_kept_counterexample:
  "fst (extract_invoice_data
          \<lparr> pdf_files = [(''input/zero.pdf'', Inr [''$0'']),
                          (''input/blank.pdf'', Inr [''Invoice Number:''])],
             stdout = [] \<rparr> ''input/zero.pdf'')
     = Inr \<lparr> invoice_number = None, vendor_name = None, invoice_date = None,
             invoice_amount = Some 0, due_date = None, payment_status = None,
             file_path = ''zero.pdf'' \<rparr>
   \<and> fst (extract_invoice_data
          \<lparr> pdf_files = [(''input/zero.pdf'', Inr [''$0'']),
                          (''input/blank.pdf'', Inr [''Invoice Number:''])],
             stdout = [] \<rparr> ''input/blank.pdf'')
     = Inr \<lparr> invoice_number = Some [], vendor_name = None, invoice_date = None,
             invoice_amount = None, due_date = None, payment_status = None,
             file_path = ''blank.pdf'' \<rparr>
   \<and> fst (collect_invoice_data
          \<lparr> pdf_files = [(''input/zero.pdf'', Inr [''$0'']),
                          (''input/blank.pdf'', Inr [''Invoice Number:''])],
             stdout = [] \<rparr> [''input/zero.pdf'', ''input/blank.pdf''])
     = Inr []"
proof -
  let ?w = "\<lparr> pdf_files = [(''input/zero.pdf'', Inr [''$0'']),
                          (''input/blank.pdf'', Inr [''Invoice Number:''])],
             stdout = [] \<rparr>"
  have r: "read_pages ?w ''input/zero.pdf'' = Inr [''$0'']"
    "read_pages ?w ''input/blank.pdf'' = Inr [''Invoice Number:'']"
    by (simp_all add: read_pages_def)
  have lz: "document_lines [''$0''] = [''$0'', []]"
    by code_simp
  have lb: "document_lines [''Invoice Number:''] = [''Invoice Number:'', []]"
    by code_simp
  have fz: "extract_invoice_number [''$0'', []] = None"
    "extract_vendor_name [''$0'', []] = None"
    "extract_invoice_date [''$0'', []] = None"
    "extract_due_date [''$0'', []] = None"
    "extract_payment_status [''$0'', []] = None"
    "path_name ''input/zero.pdf'' = ''zero.pdf''"
    by code_simp+
  have fb: "extract_invoice_number [''Invoice Number:'', []] = Some []"
    "extract_vendor_name [''Invoice Number:'', []] = None"
    "extract_invoice_date [''Invoice Number:'', []] = None"
    "extract_due_date [''Invoice Number:'', []] = None"
    "extract_payment_status [''Invoice Number:'', []] = None"
    "path_name ''input/blank.pdf'' = ''blank.pdf''"
    by code_simp+
  have l0: "line_amount ''$0'' = Some 0"
    by (simp add: amount_eval)
  have az: "first_amount [''$0'', []] = Some 0"
    by (simp only: first_amount_eval l0)
  have l4: "line_amount ''Invoice Number:'' = None"
    by (simp add: amount_eval)
  have ab: "first_amount [''Invoice Number:'', []] = None"
    by (simp only: first_amount_eval l4)
  have dz: "document_data (read_pages ?w ''input/zero.pdf'') ''input/zero.pdf''
     = \<lparr> invoice_number = None, vendor_name = None, invoice_date = None,
             invoice_amount = Some 0, due_date = None, payment_status = None,
             file_path = ''zero.pdf'' \<rparr>"
    by (simp only: r document_data_def sum.case lz fz az)
  have db: "document_data (read_pages ?w ''input/blank.pdf'') ''input/blank.pdf''
     = \<lparr> invoice_number = Some [], vendor_name = None, invoice_date = None,
             invoice_amount = None, due_date = None, payment_status = None,
             file_path = ''blank.pdf'' \<rparr>"
    by (simp only: r document_data_def sum.case lb fb ab)
  have 1: "fst (extract_invoice_data ?w ''input/zero.pdf'')
     = Inr \<lparr> invoice_number = None, vendor_name = None, invoice_date = None,
             invoice_amount = Some 0, due_date = None, payment_status = None,
             file_path = ''zero.pdf'' \<rparr>"
    by (simp only: extract_invoice_data_fst dz)
  have 2: "fst (extract_invoice_data ?w ''input/blank.pdf'')
     = Inr \<lparr> invoice_number = Some [], vendor_name = None, invoice_date = None,
             invoice_amount = None, due_date = None, payment_status = None,
             file_path = ''blank.pdf'' \<rparr>"
    by (simp only: extract_invoice_data_fst db)
  have 3: "fst (collect_invoice_data ?w [''input/zero.pdf'', ''input/blank.pdf'']) = Inr []"
    using collect_invoice_data_eq [of ?w "[''input/zero.pdf'', ''input/blank.pdf'']"]
    by (simp add: dz db has_some_data_def truthy_str_def truthy_num_def)
  from 1 2 3 show ?thesis by (intro conjI)
qed

subsection \<open>The summary sheet\<close>

declare show_nat.simps [simp del]

lemma digit_char_values:
  "digit_char 0 = CHR ''0''" "digit_char (Suc 0) = CHR ''1''" "digit_char 2 = CHR ''2''"
  "digit_char 3 = CHR ''3''" "digit_char 4 = CHR ''4''" "digit_char 5 = CHR ''5''"
  "digit_char 6 = CHR ''6''" "digit_char 7 = CHR ''7''" "digit_char 8 = CHR ''8''"
  "digit_char 9 = CHR ''9''"
  by (simp_all add: digit_char_def char_of_eq_iff)

lemma format_currency_cents:
  assumes "round_half_even (\<bar>x\<bar> * 100) = int n" and "0 \<le> x"
  shows "format_currency x =
           ''$'' @ group_thousands (show_nat (n div 100)) @ ''.''
           @ [digit_char (n mod 100 div 10), digit_char (n mod 10)]"
  using assms by (simp add: format_currency_def Let_def)

lemma sum_truthy_amounts:
  "sum_list (truthy_amounts ds) =
     sum_list (map (\<lambda>d. case invoice_amount d of None \<Rightarrow> 0 | Some a \<Rightarrow> a) ds)"
  by (induction ds) (auto simp: truthy_amounts_def split: option.splits)

lemma set_truthy_vendors:
  "set (truthy_vendors ds) = {v. v \<noteq> [] \<and> (\<exists>d\<in>set ds. vendor_name d = Some v)}"
  by (induction ds) (auto simp: truthy_vendors_def split: option.splits)

lemma document_data_vendor: "vendor_name (document_data r p) \<noteq> Some []"
proof (cases r)
  case (Inl e)
  then show ?thesis by (simp add: document_data_def empty_invoice_data_def)
next
  case (Inr pages)
  show ?thesis
  proof
    assume "vendor_name (document_data r p) = Some []"
    with Inr have "extract_vendor_name (document_lines pages) = Some []"
      by (simp add: document_data_def)
    from extract_vendor_name_Some [OF this] obtain l where
      "[] = py_strip l" "vendor_candidate l" by blast
    then show False by (simp add: vendor_candidate_def)
  qed
qed

lemma collected_vendor:
  assumes "fst (collect_invoice_data w files) = Inr ds" and "d \<in> set ds"
  shows "vendor_name d \<noteq> Some []"
proof -
  from assms collect_invoice_data_eq [of w files]
  obtain f where "d = document_data (read_pages w f) f" by auto
  then show ?thesis by (simp add: document_data_vendor)
qed

lemma process_invoices_Some:
  assumes "fst (process_invoices w files file_error) = Inr (Some r)"
  shows "fst (collect_invoice_data w files) = Inr (invoice_sheet r)
         \<and> invoice_sheet r \<noteq> []
         \<and> summary_sheet r = summary_data (invoice_sheet r)
         \<and> file_error = None
         \<and> length (invoice_sheet r) \<le> max_rows
         \<and> list_all row_accepted (invoice_sheet r)"
proof -
  obtain ds w1 where c: "collect_invoice_data w files = (Inr ds, w1)"
    using collect_invoice_data_eq [of w files] by (cases "collect_invoice_data w files") auto
  from assms c show ?thesis
    by (auto simp: process_invoices_def split: if_splits option.splits)
qed

lemma process_invoices_nonempty:
  assumes "fst (collect_invoice_data w files) = Inr ds" and "ds \<noteq> []"
  shows "fst (process_invoices w files file_error) =
           (case file_error of
              Some e \<Rightarrow> Inl e
            | None \<Rightarrow>
                if max_rows < length ds then Inl ValueError
                else if \<not> list_all row_accepted ds then Inl IllegalCharacterError
                else Inr (Some \<lparr> invoice_sheet = ds, summary_sheet = summary_data ds \<rparr>))"
proof -
  from assms have "files \<noteq> []" by auto
  moreover obtain w1 where "collect_invoice_data w files = (Inr ds, w1)"
    using assms(1) by (cases "collect_invoice_data w files") auto
  ultimately show ?thesis
    using assms(2) by (simp add: process_invoices_def split: option.splits)
qed

text \<open>
  C7 (as amended). Let the list of kept records be not empty. When the Excel file can be
  opened and saved, the list has at most 1048576 records and no text field of a record
  holds, within its first 32767 characters, a character that the writer refuses (a code
  point from 0 to 8, 11, 12, or from 14 to 31), \<open>process_invoices\<close> writes a report whose
  data sheet is that list; otherwise it raises and no summary sheet is written. The
  summary sheet of every report that is written has exactly three rows: the number of
  records; the sum of the amounts that are not \<open>None\<close>, formatted as currency; and the
  number of distinct vendor names that are not \<open>None\<close>.
\<close>

theorem summary_sheet_rows:
  "(fst (collect_invoice_data w files) = Inr ds \<and> ds \<noteq> [] \<and> file_error = None
      \<and> length ds \<le> max_rows \<and> (\<forall>d\<in>set ds. row_accepted d) \<longrightarrow>
      (\<exists>r. fst (process_invoices w files file_error) = Inr (Some r) \<and> invoice_sheet r = ds))
   \<and> (fst (collect_invoice_data w files) = Inr ds \<and> ds \<noteq> []
      \<and> (file_error \<noteq> None \<or> max_rows < length ds \<or> (\<exists>d\<in>set ds. \<not> row_accepted d)) \<longrightarrow>
      (\<exists>e. fst (process_invoices w files file_error) = Inl e))
   \<and> (fst (process_invoices w files file_error) = Inr (Some r) \<longrightarrow>
        invoice_sheet r \<noteq> []
        \<and> fst (collect_invoice_data w files) = Inr (invoice_sheet r)
        \<and> length (summary_sheet r) = 3
        \<and> summary_sheet r =
            [(''Total Invoices'', IntValue (length (invoice_sheet r))),
             (''Total Amount'',
                StrValue (format_currency
                  (sum_list (map (\<lambda>d. case invoice_amount d of None \<Rightarrow> 0 | Some a \<Rightarrow> a)
                               (invoice_sheet r))))),
             (''Unique Vendors'',
                IntValue (card {v. \<exists>d\<in>set (invoice_sheet r). vendor_name d = Some v}))])"
proof -
  have 1: "fst (collect_invoice_data w files) = Inr ds \<and> ds \<noteq> [] \<and> file_error = None
      \<and> length ds \<le> max_rows \<and> (\<forall>d\<in>set ds. row_accepted d) \<longrightarrow>
      (\<exists>r. fst (process_invoices w files file_error) = Inr (Some r) \<and> invoice_sheet r = ds)"
  proof
    assume a: "fst (collect_invoice_data w files) = Inr ds \<and> ds \<noteq> [] \<and> file_error = None
      \<and> length ds \<le> max_rows \<and> (\<forall>d\<in>set ds. row_accepted d)"
    then have "list_all row_accepted ds" by (simp add: list_all_iff)
    with a process_invoices_nonempty [of w files ds file_error]
    have "fst (process_invoices w files file_error)
            = Inr (Some \<lparr> invoice_sheet = ds, summary_sheet = summary_data ds \<rparr>)"
      by simp
    then show "\<exists>r. fst (process_invoices w files file_error) = Inr (Some r) \<and> invoice_sheet r = ds"
      by simp
  qed
  have 2: "fst (collect_invoice_data w files) = Inr ds \<and> ds \<noteq> []
      \<and> (file_error \<noteq> None \<or> max_rows < length ds \<or> (\<exists>d\<in>set ds. \<not> row_accepted d)) \<longrightarrow>
      (\<exists>e. fst (process_invoices w files file_error) = Inl e)"
  proof
    assume a: "fst (collect_invoice_data w files) = Inr ds \<and> ds \<noteq> []
      \<and> (file_error \<noteq> None \<or> max_rows < length ds \<or> (\<exists>d\<in>set ds. \<not> row_accepted d))"
    then have n: "fst (process_invoices w files file_error) =
           (case file_error of
              Some e \<Rightarrow> Inl e
            | None \<Rightarrow>
                if max_rows < length ds then Inl ValueError
                else if \<not> list_all row_accepted ds then Inl IllegalCharacterError
                else Inr (Some \<lparr> invoice_sheet = ds, summary_sheet = summary_data ds \<rparr>))"
      using process_invoices_nonempty [of w files ds file_error] by blast
    from a have "file_error \<noteq> None \<or> max_rows < length ds \<or> \<not> list_all row_accepted ds"
      by (auto simp: list_all_iff)
    with n show "\<exists>e. fst (process_invoices w files file_error) = Inl e"
      by (cases file_error) auto
  qed
  have 3: "fst (process_invoices w files file_error) = Inr (Some r) \<longrightarrow>
        invoice_sheet r \<noteq> []
        \<and> fst (collect_invoice_data w files) = Inr (invoice_sheet r)
        \<and> length (summary_sheet r) = 3
        \<and> summary_sheet r =
            [(''Total Invoices'', IntValue (length (invoice_sheet r))),
             (''Total Amount'',
                StrValue (format_currency
                  (sum_list (map (\<lambda>d. case invoice_amount d of None \<Rightarrow> 0 | Some a \<Rightarrow> a)
                               (invoice_sheet r))))),
             (''Unique Vendors'',
                IntValue (card {v. \<exists>d\<in>set (invoice_sheet r). vendor_name d = Some v}))]"
  proof
    assume a: "fst (process_invoices w files file_error) = Inr (Some r)"
    note p = process_invoices_Some [OF a]
    from p have c: "fst (collect_invoice_data w files) = Inr (invoice_sheet r)" by blast
    from p have ne: "invoice_sheet r \<noteq> []" by blast
    from p have sd: "summary_sheet r = summary_data (invoice_sheet r)" by blast
    have "\<forall>d\<in>set (invoice_sheet r). vendor_name d \<noteq> Some []"
      using collected_vendor [OF c] by blast
    then have v: "set (truthy_vendors (invoice_sheet r))
                    = {v. \<exists>d\<in>set (invoice_sheet r). vendor_name d = Some v}"
      unfolding set_truthy_vendors by auto
    have s: "summary_sheet r =
            [(''Total Invoices'', IntValue (length (invoice_sheet r))),
             (''Total Amount'',
                StrValue (format_currency
                  (sum_list (map (\<lambda>d. case invoice_amount d of None \<Rightarrow> 0 | Some a \<Rightarrow> a)
                               (invoice_sheet r))))),
             (''Unique Vendors'',
                IntValue (card {v. \<exists>d\<in>set (invoice_sheet r). vendor_name d = Some v}))]"
      using sd by (simp add: summary_data_def Let_def sum_truthy_amounts v)
    then have "length (summary_sheet r) = 3" by simp
    with ne c s show "invoice_sheet r \<noteq> []
        \<and> fst (collect_invoice_data w files) = Inr (invoice_sheet r)
        \<and> length (summary_sheet r) = 3
        \<and> summary_sheet r =
            [(''Total Invoices'', IntValue (length (invoice_sheet r))),
             (''Total Amount'',
                StrValue (format_currency
                  (sum_list (map (\<lambda>d. case invoice_amount d of None \<Rightarrow> 0 | Some a \<Rightarrow> a)
                               (invoice_sheet r))))),
             (''Unique Vendors'',
                IntValue (card {v. \<exists>d\<in>set (invoice_sheet r). vendor_name d = Some v}))]"
      by blast
  qed
  from 1 2 3 show ?thesis by (intro conjI)
qed

theorem summary_sheet_rows_witness:
  "fst (process_invoices
          \<lparr> pdf_files = [(''input/a.pdf'', Inr [''Acme Corp'', ''Total: $12.50'']),
                          (''input/b.pdf'', Inr [''Acme Corp'', ''Amount: $1,000.00'']),
                          (''input/c.pdf'', Inr [''Bolt Inc''])],
             stdout = [] \<rparr>
          [''input/a.pdf'', ''input/b.pdf'', ''input/c.pdf''] None)
     = Inr (Some
         \<lparr> invoice_sheet =
             [\<lparr> invoice_number = None, vendor_name = Some ''Acme Corp'', invoice_date = None,
                 invoice_amount = Some (25 / 2), due_date = None, payment_status = None,
                 file_path = ''a.pdf'' \<rparr>,
              \<lparr> invoice_number = None, vendor_name = Some ''Acme Corp'', invoice_date = None,
                 invoice_amount = Some 1000, due_date = None, payment_status = None,
                 file_path = ''b.pdf'' \<rparr>,
              \<lparr> invoice_number = None, vendor_name = Some ''Bolt Inc'', invoice_date = None,
                 invoice_amount = None, due_date = None, payment_status = None,
                 file_path = ''c.pdf'' \<rparr>],
           summary_sheet =
             [(''Total Invoices'', IntValue 3),
              (''Total Amount'', StrValue ''$1,012.50''),
              (''Unique Vendors'', IntValue 2)] \<rparr>)
   \<and> fst (process_invoices
          \<lparr> pdf_files = [(''input/a.pdf'', Inr [''Acme Corp'', ''Total: $12.50'']),
                          (''input/b.pdf'', Inr [''Acme Corp'', ''Amount: $1,000.00'']),
                          (''input/c.pdf'', Inr [''Bolt Inc''])],
             stdout = [] \<rparr>
          [''input/a.pdf'', ''input/b.pdf'', ''input/c.pdf''] (Some OSError))
     = Inl OSError"
proof -
  let ?w = "\<lparr> pdf_files = [(''input/a.pdf'', Inr [''Acme Corp'', ''Total: $12.50'']),
                          (''input/b.pdf'', Inr [''Acme Corp'', ''Amount: $1,000.00'']),
                          (''input/c.pdf'', Inr [''Bolt Inc''])],
             stdout = [] \<rparr>"
  let ?fs = "[''input/a.pdf'', ''input/b.pdf'', ''input/c.pdf'']"
  let ?da = "\<lparr> invoice_number = None, vendor_name = Some ''Acme Corp'', invoice_date = None,
                 invoice_amount = Some (25 / 2), due_date = None, payment_status = None,
                 file_path = ''a.pdf'' \<rparr>"
  let ?db = "\<lparr> invoice_number = None, vendor_name = Some ''Acme Corp'', invoice_date = None,
                 invoice_amount = Some 1000, due_date = None, payment_status = None,
                 file_path = ''b.pdf'' \<rparr>"
  let ?dc = "\<lparr> invoice_number = None, vendor_name = Some ''Bolt Inc'', invoice_date = None,
                 invoice_amount = None, due_date = None, payment_status = None,
                 file_path = ''c.pdf'' \<rparr>"
  have r: "read_pages ?w ''input/a.pdf'' = Inr [''Acme Corp'', ''Total: $12.50'']"
    "read_pages ?w ''input/b.pdf'' = Inr [''Acme Corp'', ''Amount: $1,000.00'']"
    "read_pages ?w ''input/c.pdf'' = Inr [''Bolt Inc'']"
    by (simp_all add: read_pages_def)
  have ls: "document_lines [''Acme Corp'', ''Total: $12.50''] = [''Acme Corp'', ''Total: $12.50'', []]"
    "document_lines [''Acme Corp'', ''Amount: $1,000.00''] = [''Acme Corp'', ''Amount: $1,000.00'', []]"
    "document_lines [''Bolt Inc''] = [''Bolt Inc'', []]"
    by code_simp+
  have fa: "extract_invoice_number [''Acme Corp'', ''Total: $12.50'', []] = None"
    "extract_vendor_name [''Acme Corp'', ''Total: $12.50'', []] = Some ''Acme Corp''"
    "extract_invoice_date [''Acme Corp'', ''Total: $12.50'', []] = None"
    "extract_due_date [''Acme Corp'', ''Total: $12.50'', []] = None"
    "extract_payment_status [''Acme Corp'', ''Total: $12.50'', []] = None"
    "path_name ''input/a.pdf'' = ''a.pdf''"
    by code_simp+
  have fb: "extract_invoice_number [''Acme Corp'', ''Amount: $1,000.00'', []] = None"
    "extract_vendor_name [''Acme Corp'', ''Amount: $1,000.00'', []] = Some ''Acme Corp''"
    "extract_invoice_date [''Acme Corp'', ''Amount: $1,000.00'', []] = None"
    "extract_due_date [''Acme Corp'', ''Amount: $1,000.00'', []] = None"
    "extract_payment_status [''Acme Corp'', ''Amount: $1,000.00'', []] = None"
    "path_name ''input/b.pdf'' = ''b.pdf''"
    by code_simp+
  have fc: "extract_invoice_number [''Bolt Inc'', []] = None"
    "extract_vendor_name [''Bolt Inc'', []] = Some ''Bolt Inc''"
    "extract_invoice_date [''Bolt Inc'', []] = None"
    "extract_due_date [''Bolt Inc'', []] = None"
    "extract_payment_status [''Bolt Inc'', []] = None"
    "path_name ''input/c.pdf'' = ''c.pdf''"
    by code_simp+
  have l: "line_amount ''Acme Corp'' = None"
    "line_amount ''Total: $12.50'' = Some (25 / 2)"
    "line_amount ''Amount: $1,000.00'' = Some 1000"
    "line_amount ''Bolt Inc'' = None"
    by (simp_all add: amount_eval)
  have am: "first_amount [''Acme Corp'', ''Total: $12.50'', []] = Some (25 / 2)"
    "first_amount [''Acme Corp'', ''Amount: $1,000.00'', []] = Some 1000"
    "first_amount [''Bolt Inc'', []] = None"
    by (simp_all only: first_amount_eval l)
  have da: "document_data (read_pages ?w ''input/a.pdf'') ''input/a.pdf'' = ?da"
    by (simp only: r document_data_def sum.case ls fa am)
  have db: "document_data (read_pages ?w ''input/b.pdf'') ''input/b.pdf'' = ?db"
    by (simp only: r document_data_def sum.case ls fb am)
  have dc: "document_data (read_pages ?w ''input/c.pdf'') ''input/c.pdf'' = ?dc"
    by (simp only: r document_data_def sum.case ls fc am)
  have c: "fst (collect_invoice_data ?w ?fs) = Inr [?da, ?db, ?dc]"
    using collect_invoice_data_eq [of ?w ?fs]
    by (simp add: da db dc has_some_data_def truthy_str_def truthy_num_def)
  have ca: "cell_accepted (Some ''Acme Corp'')" "cell_accepted (Some ''Bolt Inc'')"
    "cell_accepted (Some ''a.pdf'')" "cell_accepted (Some ''b.pdf'')"
    "cell_accepted (Some ''c.pdf'')" "cell_accepted None"
    by (simp_all add: cell_accepted_def illegal_character_def)
  have acc: "\<forall>d\<in>set [?da, ?db, ?dc]. row_accepted d"
    by (simp add: row_accepted_def ca)
  have len: "length [?da, ?db, ?dc] \<le> max_rows"
    by (simp add: max_rows_def)
  from summary_sheet_rows [of ?w ?fs "[?da, ?db, ?dc]" None] c acc len
  obtain rep where rep: "fst (process_invoices ?w ?fs None) = Inr (Some rep)"
    and sheet: "invoice_sheet rep = [?da, ?db, ?dc]"
    by blast
  from summary_sheet_rows [of ?w ?fs "[?da, ?db, ?dc]" None rep] rep
  have s: "summary_sheet rep =
            [(''Total Invoices'', IntValue (length (invoice_sheet rep))),
             (''Total Amount'',
                StrValue (format_currency
                  (sum_list (map (\<lambda>d. case invoice_amount d of None \<Rightarrow> 0 | Some a \<Rightarrow> a)
                               (invoice_sheet rep))))),
             (''Unique Vendors'',
                IntValue (card {v. \<exists>d\<in>set (invoice_sheet rep). vendor_name d = Some v}))]"
    by blast
  have total: "sum_list (map (\<lambda>d. case invoice_amount d of None \<Rightarrow> 0 | Some a \<Rightarrow> a)
                            [?da, ?db, ?dc]) = 2025 / 2"
    by simp
  have sn: "show_nat 1012 = ''1012''"
    by (simp add: show_nat.simps digit_char_values)
  have gt: "group_thousands ''1012'' = ''1,012''"
    by code_simp
  have rh: "round_half_even (\<bar>2025 / 2\<bar> * 100) = int 101250"
    by (simp add: round_half_even_def Let_def)
  have cur: "format_currency (2025 / 2) = ''$1,012.50''"
    using format_currency_cents [OF rh] by (simp add: sn gt digit_char_values)
  have vs: "{v. \<exists>d\<in>set [?da, ?db, ?dc]. vendor_name d = Some v} = {''Acme Corp'', ''Bolt Inc''}"
    by auto
  have cd: "card {''Acme Corp'', ''Bolt Inc''} = 2"
    by simp
  have s': "summary_sheet rep =
             [(''Total Invoices'', IntValue 3),
              (''Total Amount'', StrValue ''$1,012.50''),
              (''Unique Vendors'', IntValue 2)]"
    unfolding s sheet total cur vs cd by simp
  have "rep = \<lparr> invoice_sheet = [?da, ?db, ?dc],
                summary_sheet = [(''Total Invoices'', IntValue 3),
                                 (''Total Amount'', StrValue ''$1,012.50''),
                                 (''Unique Vendors'', IntValue 2)] \<rparr>"
    using sheet s' by (cases rep) simp
  with rep have w1: "fst (process_invoices ?w ?fs None)
     = Inr (Some \<lparr> invoice_sheet = [?da, ?db, ?dc],
                   summary_sheet = [(''Total Invoices'', IntValue 3),
                                    (''Total Amount'', StrValue ''$1,012.50''),
                                    (''Unique Vendors'', IntValue 2)] \<rparr>)"
    by simp
  have "fst (process_invoices ?w ?fs (Some OSError)) = Inl OSError"
    using process_invoices_nonempty [of ?w ?fs "[?da, ?db, ?dc]" "Some OSError"] c by simp
  with w1 show ?thesis by (intro conjI)
qed


text \<open>
  The claim as it was stated fails: a non-empty list of kept records does not always
  give a summary sheet. A document whose text is the line \<open>Invoice Number: A\<close>, the
  character with code point 1 and \<open>B\<close> has an invoice number that holds that character;
  the record is kept, the writer refuses the invoice number while it writes the data
  sheet, and \<open>process_invoices\<close> raises \<open>IllegalCharacterError\<close> instead of writing a report.
\<close>

theorem summary_sheet_counterexample:
  "fst (collect_invoice_data
          \<lparr> pdf_files = [(''input/x.pdf'', Inr [''Invoice Number: A'' @ [CHR 0x01] @ ''B''])],
             stdout = [] \<rparr> [''input/x.pdf''])
     = Inr [\<lparr> invoice_number = Some (''A'' @ [CHR 0x01] @ ''B''), vendor_name = None,
              invoice_date = None, invoice_amount = None, due_date = None,
              payment_status = None, file_path = ''x.pdf'' \<rparr>]
   \<and> fst (process_invoices
          \<lparr> pdf_files = [(''input/x.pdf'', Inr [''Invoice Number: A'' @ [CHR 0x01] @ ''B''])],
             stdout = [] \<rparr> [''input/x.pdf''] None)
     = Inl IllegalCharacterError"
proof -
  let ?t = "''Invoice Number: A'' @ [CHR 0x01] @ ''B''"
  let ?w = "\<lparr> pdf_files = [(''input/x.pdf'', Inr [?t])], stdout = [] \<rparr>"
  let ?d = "\<lparr> invoice_number = Some (''A'' @ [CHR 0x01] @ ''B''), vendor_name = None,
              invoice_date = None, invoice_amount = None, due_date = None,
              payment_status = None, file_path = ''x.pdf'' \<rparr>"
  have r: "read_pages ?w ''input/x.pdf'' = Inr [?t]"
    by (simp add: read_pages_def)
  have ls: "document_lines [?t] = [?t, []]"
    by code_simp
  have f: "extract_invoice_number [?t, []] = Some (''A'' @ [CHR 0x01] @ ''B'')"
    "extract_vendor_name [?t, []] = None"
    "extract_invoice_date [?t, []] = None"
    "extract_due_date [?t, []] = None"
    "extract_payment_status [?t, []] = None"
    "path_name ''input/x.pdf'' = ''x.pdf''"
    by code_simp+
  have l: "line_amount ?t = None"
    by (simp add: amount_eval)
  have am: "first_amount [?t, []] = None"
    by (simp only: first_amount_eval l)
  have d: "document_data (read_pages ?w ''input/x.pdf'') ''input/x.pdf'' = ?d"
    by (simp only: r document_data_def sum.case ls f am)
  have h: "has_some_data ?d"
    by (simp add: has_some_data_def truthy_str_def)
  have "fst (collect_invoice_data ?w [''input/x.pdf''])
          = Inr (filter has_some_data
                   (map (\<lambda>f. document_data (read_pages ?w f) f) [''input/x.pdf'']))"
    using collect_invoice_data_eq [of ?w "[''input/x.pdf'']"] by (rule conjunct1)
  also have "map (\<lambda>f. document_data (read_pages ?w f) f) [''input/x.pdf''] = [?d]"
    by (simp only: list.map d)
  also have "filter has_some_data [?d] = [?d]"
    by (simp only: filter.simps h if_True)
  finally have c: "fst (collect_invoice_data ?w [''input/x.pdf'']) = Inr [?d]" .
  have na: "\<not> cell_accepted (Some (''A'' @ [CHR 0x01] @ ''B''))"
    by (simp add: cell_accepted_def illegal_character_def)
  have nr: "\<not> list_all row_accepted [?d]"
    using na by (simp add: row_accepted_def)
  have len: "\<not> max_rows < length [?d]"
    by (simp add: max_rows_def)
  have p: "fst (process_invoices ?w [''input/x.pdf''] None) = Inl IllegalCharacterError"
    using process_invoices_nonempty [of ?w "[''input/x.pdf'']" "[?d]" None] c nr len
    by simp
  from c p show ?thesis by (rule conjI)
qed

end
